theory Spec2Isabelle
  imports Main
begin

section \<open>Python strings\<close>

text \<open>
  A Python \<open>str\<close> is a sequence of Unicode code points, so a string is a list of
  natural numbers here. \<open>lit\<close> turns an ASCII literal into such a string.
\<close>

type_synonym ustr = "nat list"

definition lit :: "string \<Rightarrow> ustr" where
  "lit s = map of_char s"

text \<open>
  \<open>c.isalnum()\<close> for one character. On ASCII it is exactly the digits and the
  letters; beyond ASCII it is read from the Unicode database, which is the
  parameter \<open>U\<close> of the model.
\<close>

definition isalnum :: "(nat \<Rightarrow> bool) \<Rightarrow> nat \<Rightarrow> bool" where
  "isalnum U c =
     (if c < 128
      then (48 \<le> c \<and> c \<le> 57) \<or> (65 \<le> c \<and> c \<le> 90) \<or> (97 \<le> c \<and> c \<le> 122)
      else U c)"

text \<open>The characters \<open>str.strip()\<close> removes: Python's Unicode whitespace.\<close>

definition isspace :: "nat \<Rightarrow> bool" where
  "isspace c =
     ((9 \<le> c \<and> c \<le> 13) \<or> (28 \<le> c \<and> c \<le> 32) \<or> c = 133 \<or> c = 160 \<or> c = 5760 \<or>
      (8192 \<le> c \<and> c \<le> 8202) \<or> c = 8232 \<or> c = 8233 \<or> c = 8239 \<or> c = 8287 \<or>
      c = 12288)"

definition strip_with :: "(nat \<Rightarrow> bool) \<Rightarrow> ustr \<Rightarrow> ustr" where
  "strip_with P s = rev (dropWhile P (rev (dropWhile P s)))"

text \<open>\<open>s.strip()\<close> and \<open>s.strip(chars)\<close>.\<close>

definition strip :: "ustr \<Rightarrow> ustr" where
  "strip s = strip_with isspace s"

definition strip_chars :: "ustr \<Rightarrow> ustr \<Rightarrow> ustr" where
  "strip_chars chars s = strip_with (\<lambda>c. c \<in> set chars) s"

text \<open>\<open>s.replace(a, b)\<close> for one-character \<open>a\<close> and \<open>b\<close>.\<close>

definition replace_char :: "nat \<Rightarrow> nat \<Rightarrow> ustr \<Rightarrow> ustr" where
  "replace_char a b s = map (\<lambda>c. if c = a then b else c) s"

text \<open>\<open>sep.join(xs)\<close> and \<open>s.split(c)\<close> for a one-character separator.\<close>

fun join :: "ustr \<Rightarrow> ustr list \<Rightarrow> ustr" where
  "join sep [] = []"
| "join sep [x] = x"
| "join sep (x # y # ys) = x @ sep @ join sep (y # ys)"

fun split_on :: "nat \<Rightarrow> ustr \<Rightarrow> ustr list" where
  "split_on c [] = [[]]"
| "split_on c (x # xs) =
     (if x = c then [] # split_on c xs
      else (case split_on c xs of [] \<Rightarrow> [[x]] | p # ps \<Rightarrow> (x # p) # ps))"

text \<open>\<open>s.rfind(c)\<close>: the last index of \<open>c\<close>, or \<open>-1\<close>.\<close>

definition rfind :: "nat \<Rightarrow> ustr \<Rightarrow> int" where
  "rfind c s =
     (if c \<in> set s
      then int (length s) - 1 - int (length (takeWhile (\<lambda>x. x \<noteq> c) (rev s)))
      else - 1)"

section \<open>The two sanitizers\<close>

text \<open>
  Line 106 of \<open>video_share.py\<close>:
  \<^verbatim>\<open>"".join(c for c in original_name if c.isalnum() or c in (' ', '-', '_', '.')).strip()\<close>
\<close>

definition safe_name :: "(nat \<Rightarrow> bool) \<Rightarrow> ustr \<Rightarrow> ustr" where
  "safe_name U original_name =
     strip (filter (\<lambda>c. isalnum U c \<or> c \<in> set (lit '' -_.'')) original_name)"

text \<open>
  Line 50:
  \<^verbatim>\<open>"".join(c for c in title if c.isalnum() or c in (' ', '-', '_')).strip()\<close>
\<close>

definition safe_title :: "(nat \<Rightarrow> bool) \<Rightarrow> ustr \<Rightarrow> ustr" where
  "safe_title U title =
     strip (filter (\<lambda>c. isalnum U c \<or> c \<in> set (lit '' -_'')) title)"

text \<open>A string with no whitespace at either end.\<close>

definition trimmed :: "ustr \<Rightarrow> bool" where
  "trimmed s = (case s of [] \<Rightarrow> True | _ # _ \<Rightarrow> \<not> isspace (hd s) \<and> \<not> isspace (last s))"

section \<open>pathlib, POSIX flavour\<close>

text \<open>
  A pure path as \<open>pathlib.PurePosixPath\<close> keeps it: the root (\<open>''\<close>, \<open>'/'\<close> or
  \<open>'//'\<close>) and the parts after it. Parsing splits at \<open>'/'\<close> and drops empty and
  \<open>'.'\<close> parts; \<open>'..'\<close> parts are kept.
\<close>

record ppath =
  p_root :: ustr
  p_parts :: "ustr list"

definition Path :: "ustr \<Rightarrow> ppath" where
  "Path s =
     \<lparr>p_root =
        (if take 2 s = lit ''//'' \<and> take 3 s \<noteq> lit ''///'' then lit ''//''
         else if take 1 s = lit ''/'' then lit ''/''
         else []),
      p_parts = filter (\<lambda>p. p \<noteq> [] \<and> p \<noteq> lit ''.'') (split_on 47 s)\<rparr>"

text \<open>\<open>p / s\<close>: an absolute segment replaces the path, any other is appended.\<close>

definition joinpath :: "ppath \<Rightarrow> ustr \<Rightarrow> ppath" where
  "joinpath p s =
     (let q = Path s
      in if p_root q \<noteq> [] then q else p\<lparr>p_parts := p_parts p @ p_parts q\<rparr>)"

text \<open>\<open>p.name\<close>, \<open>p.stem\<close> (as in CPython up to 3.13), \<open>p.parent\<close>, \<open>str(p)\<close>.\<close>

definition path_name :: "ppath \<Rightarrow> ustr" where
  "path_name p = (if p_parts p = [] then [] else last (p_parts p))"

definition path_stem :: "ppath \<Rightarrow> ustr" where
  "path_stem p =
     (let name = path_name p; i = rfind 46 name
      in if 0 < i \<and> i < int (length name) - 1 then take (nat i) name else name)"

definition path_parent :: "ppath \<Rightarrow> ppath" where
  "path_parent p = p\<lparr>p_parts := butlast (p_parts p)\<rparr>"

definition path_str :: "ppath \<Rightarrow> ustr" where
  "path_str p =
     (if p_root p = [] \<and> p_parts p = [] then lit ''.''
      else p_root p @ join (lit ''/'') (p_parts p))"

section \<open>Errors, console output and the world\<close>

text \<open>
  The exceptions the program can meet. \<open>SystemExit\<close> is what \<open>sys.exit\<close> raises; it
  is not an \<open>Exception\<close>, so \<open>except Exception\<close> lets it through.
  \<open>CommandFailed\<close> is the \<open>Exception\<close> of line 40 with the command's standard
  error, \<open>ShareFailed\<close> the one of line 152 around the error it wraps.
\<close>

datatype exn =
    FileNotFoundError
  | FileExistsError
  | IsADirectoryError
  | NotADirectoryError
  | SameFileError
  | OSError
  | ValueError
  | DataOverflowError
  | EOFError
  | CommandFailed ustr
  | ShareFailed exn
  | SystemExit nat

fun is_Exception :: "exn \<Rightarrow> bool" where
  "is_Exception (SystemExit n) = False"
| "is_Exception e = True"

text \<open>\<open>p.relative_to(other)\<close>.\<close>

definition relative_to :: "ppath \<Rightarrow> ppath \<Rightarrow> exn + ppath" where
  "relative_to p other =
     (if p_root p = p_root other \<and> take (length (p_parts other)) (p_parts p) = p_parts other
      then Inr \<lparr>p_root = [], p_parts = drop (length (p_parts other)) (p_parts p)\<rparr>
      else Inl ValueError)"

text \<open>The result dictionary of \<open>share_video\<close> (lines 144 to 149).\<close>

record share_info =
  info_video_path :: ustr
  info_page_path :: ustr
  info_page_url :: ustr
  info_qr_path :: ustr

text \<open>
  One constructor for each \<open>print\<close> of the program (its line in the comment); the
  console is the list of what was printed.
\<close>

datatype msg =
    Banner                  \<comment> \<open>line 155\<close>
  | UsingCwd ustr           \<comment> \<open>line 160\<close>
  | SetupFailed exn         \<comment> \<open>line 24\<close>
  | CommandError exn        \<comment> \<open>line 44\<close>
  | Copying                 \<comment> \<open>line 110\<close>
  | CreatingPage            \<comment> \<open>line 114\<close>
  | Committing              \<comment> \<open>line 118\<close>
  | MakingQr                \<comment> \<open>line 129\<close>
  | Prompt                  \<comment> \<open>line 166, the prompt of \<open>input\<close>\<close>
  | NotExist                \<comment> \<open>line 168\<close>
  | Processing              \<comment> \<open>line 172\<close>
  | Success                 \<comment> \<open>line 175\<close>
  | ShowVideoPath ustr      \<comment> \<open>line 176\<close>
  | ShowPagePath ustr       \<comment> \<open>line 177\<close>
  | ShowPageUrl ustr        \<comment> \<open>line 178\<close>
  | ShowQrPath ustr         \<comment> \<open>line 179\<close>
  | PushNote                \<comment> \<open>line 180\<close>
  | PushCommand             \<comment> \<open>line 181\<close>
  | MainError exn           \<comment> \<open>line 184\<close>

text \<open>
  The file system holds directories and regular files under resolved paths (the names
  from the root down; no symbolic links). A file holds copied bytes, a page or the
  image of a QR code for a URL. \<open>faulty\<close> says which operations the environment makes
  fail whatever the state (permissions, a full disk); \<open>run_proc n cmd\<close> is what the
  \<open>n\<close>-th external process does when started with \<open>cmd\<close>. External processes are
  taken not to touch the files and directories of the model.
\<close>

type_synonym fpath = "ustr list"

datatype content = Bytes "nat list" | Html ustr | QrImage ustr

datatype io_op =
    Mkdir ustr
  | Chdir ustr
  | CopyFile ustr ustr
  | OpenW ustr
  | WriteData ustr
  | MakeQr ustr

datatype proc_result = NotStarted | Exited int ustr ustr

record world =
  dirs :: "fpath set"
  files :: "fpath \<Rightarrow> content option"
  cwd :: fpath
  faulty :: "io_op \<Rightarrow> bool"
  run_proc :: "nat \<Rightarrow> ustr list \<Rightarrow> proc_result"
  spawned :: "ustr list list"
  console :: "msg list"

text \<open>A computation either raises or returns, and leaves a world.\<close>

type_synonym 'a io = "world \<Rightarrow> (exn + 'a) \<times> world"

definition io_return :: "'a \<Rightarrow> 'a io" where
  "io_return x w = (Inr x, w)"

definition io_raise :: "exn \<Rightarrow> 'a io" where
  "io_raise e w = (Inl e, w)"

definition io_bind :: "'a io \<Rightarrow> ('a \<Rightarrow> 'b io) \<Rightarrow> 'b io" where
  "io_bind m f w = (case m w of (Inl e, w') \<Rightarrow> (Inl e, w') | (Inr x, w') \<Rightarrow> f x w')"

text \<open>\<open>try: m except Exception as e: h e\<close>.\<close>

definition except_Exception :: "'a io \<Rightarrow> (exn \<Rightarrow> 'a io) \<Rightarrow> 'a io" where
  "except_Exception m h w =
     (case m w of
        (Inl e, w') \<Rightarrow> if is_Exception e then h e w' else (Inl e, w')
      | (Inr x, w') \<Rightarrow> (Inr x, w'))"

definition print_msg :: "msg \<Rightarrow> unit io" where
  "print_msg m w = (Inr (), w\<lparr>console := console w @ [m]\<rparr>)"

subsection \<open>The operating system\<close>

text \<open>
  Resolving a path string: from the root or the working directory, one name at a
  time; every name is looked up in a directory.
\<close>

fun walk :: "fpath set \<Rightarrow> fpath \<Rightarrow> ustr list \<Rightarrow> fpath option" where
  "walk D cur [] = Some cur"
| "walk D cur (c # cs) =
     (if cur \<notin> D then None
      else if c = [] \<or> c = lit ''.'' then walk D cur cs
      else if c = lit ''..'' then walk D (butlast cur) cs
      else walk D (cur @ [c]) cs)"

definition os_resolve :: "world \<Rightarrow> ustr \<Rightarrow> fpath option" where
  "os_resolve w s =
     (if s = [] then None
      else walk (dirs w) (if hd s = 47 then [] else cwd w) (split_on 47 s))"

definition os_path_exists :: "world \<Rightarrow> ustr \<Rightarrow> bool" where
  "os_path_exists w s =
     (case os_resolve w s of None \<Rightarrow> False | Some p \<Rightarrow> p \<in> dirs w \<or> files w p \<noteq> None)"

definition os_path_isdir :: "world \<Rightarrow> ustr \<Rightarrow> bool" where
  "os_path_isdir w s = (case os_resolve w s of None \<Rightarrow> False | Some p \<Rightarrow> p \<in> dirs w)"

definition os_path_basename :: "ustr \<Rightarrow> ustr" where
  "os_path_basename s = last (split_on 47 s)"

definition os_path_join :: "ustr \<Rightarrow> ustr \<Rightarrow> ustr" where
  "os_path_join a b =
     (if take 1 b = lit ''/'' then b
      else if a = [] \<or> last a = 47 then a @ b
      else a @ lit ''/'' @ b)"

text \<open>
  \<open>os.getcwd()\<close>: the working directory as an absolute path string; it fails when
  the directory no longer exists.
\<close>

definition cwd_str :: "world \<Rightarrow> ustr" where
  "cwd_str w = lit ''/'' @ join (lit ''/'') (cwd w)"

definition getcwd :: "ustr io" where
  "getcwd w =
     (if cwd w \<in> dirs w then (Inr (cwd_str w), w) else (Inl FileNotFoundError, w))"

text \<open>\<open>Path(s).mkdir(exist_ok=True)\<close>: an existing directory is accepted.\<close>

definition mkdir_exist_ok :: "ustr \<Rightarrow> unit io" where
  "mkdir_exist_ok s w =
     (if faulty w (Mkdir s) then (Inl OSError, w)
      else case os_resolve w s of
        None \<Rightarrow> (Inl FileNotFoundError, w)
      | Some p \<Rightarrow>
          if p \<in> dirs w then (Inr (), w)
          else if files w p \<noteq> None then (Inl FileExistsError, w)
          else if p = [] \<or> butlast p \<notin> dirs w then (Inl FileNotFoundError, w)
          else (Inr (), w\<lparr>dirs := insert p (dirs w)\<rparr>))"

definition chdir :: "ustr \<Rightarrow> unit io" where
  "chdir s w =
     (if faulty w (Chdir s) then (Inl OSError, w)
      else case os_resolve w s of
        None \<Rightarrow> (Inl FileNotFoundError, w)
      | Some p \<Rightarrow>
          if p \<in> dirs w then (Inr (), w\<lparr>cwd := p\<rparr>)
          else if files w p \<noteq> None then (Inl NotADirectoryError, w)
          else (Inl FileNotFoundError, w))"

text \<open>
  Opening a file for writing and writing it: the open can fail and leave nothing, the
  write can fail and leave an empty file.
\<close>

definition write_file :: "ustr \<Rightarrow> content \<Rightarrow> content \<Rightarrow> unit io" where
  "write_file s blank data w =
     (if faulty w (OpenW s) then (Inl OSError, w)
      else case os_resolve w s of
        None \<Rightarrow> (Inl FileNotFoundError, w)
      | Some p \<Rightarrow>
          if p \<in> dirs w then (Inl IsADirectoryError, w)
          else if p = [] \<or> butlast p \<notin> dirs w then (Inl FileNotFoundError, w)
          else if faulty w (WriteData s) then (Inl OSError, w\<lparr>files := (files w)(p \<mapsto> blank)\<rparr>)
          else (Inr (), w\<lparr>files := (files w)(p \<mapsto> data)\<rparr>))"

text \<open>
  \<open>shutil.copy2(src, dst)\<close>: a destination that is a directory receives the file under
  the source's base name; the result is the destination written. Metadata is not
  part of the model.
\<close>

definition copy2 :: "ustr \<Rightarrow> ustr \<Rightarrow> ustr io" where
  "copy2 src dst w =
     (if faulty w (CopyFile src dst) then (Inl OSError, w)
      else
        let dst' = (if os_path_isdir w dst then os_path_join dst (os_path_basename src) else dst)
        in case os_resolve w src of
          None \<Rightarrow> (Inl FileNotFoundError, w)
        | Some sp \<Rightarrow>
            (case files w sp of
               None \<Rightarrow> (Inl (if sp \<in> dirs w then IsADirectoryError else FileNotFoundError), w)
             | Some data \<Rightarrow>
                 (case os_resolve w dst' of
                    None \<Rightarrow> (Inl FileNotFoundError, w)
                  | Some dp \<Rightarrow>
                      if dp = sp then (Inl SameFileError, w)
                      else if dp \<in> dirs w then (Inl IsADirectoryError, w)
                      else if dp = [] \<or> butlast dp \<notin> dirs w then (Inl FileNotFoundError, w)
                      else (Inr dst', w\<lparr>files := (files w)(dp \<mapsto> data)\<rparr>))))"

text \<open>
  Lines 130 to 137: building the QR code for a URL. The encoder is a library; its
  result is the image \<open>QrImage url\<close>, or an error when the environment says so.
\<close>

definition qr_make :: "ustr \<Rightarrow> content io" where
  "qr_make url w = (if faulty w (MakeQr url) then (Inl DataOverflowError, w) else (Inr (QrImage url), w))"

section \<open>The program\<close>

record sharer =
  repo_path :: ppath
  videos_dir :: ppath
  pages_dir :: ppath

subsection \<open>\<open>setup_repository\<close> and \<open>__init__\<close>\<close>

definition setup_repository :: "sharer \<Rightarrow> unit io" where
  "setup_repository self =
     except_Exception
       (io_bind (mkdir_exist_ok (path_str (videos_dir self))) (\<lambda>_.
        io_bind (mkdir_exist_ok (path_str (pages_dir self))) (\<lambda>_.
        chdir (path_str (repo_path self)))))
       (\<lambda>e. io_bind (print_msg (SetupFailed e)) (\<lambda>_. io_raise (SystemExit 1)))"

definition new_sharer :: "ustr \<Rightarrow> sharer" where
  "new_sharer repo =
     \<lparr>repo_path = Path repo,
      videos_dir = joinpath (Path repo) (lit ''videos''),
      pages_dir = joinpath (Path repo) (lit ''pages'')\<rparr>"

definition GitLFSVideoShare :: "ustr \<Rightarrow> sharer io" where
  "GitLFSVideoShare repo =
     io_bind (setup_repository (new_sharer repo)) (\<lambda>_. io_return (new_sharer repo))"

subsection \<open>\<open>_run_command\<close>\<close>

text \<open>
  A process that cannot be started raises in \<open>Popen\<close>, one that exits with a status
  other than 0 raises at line 40; both are caught at line 43, printed, and the empty
  string is returned.
\<close>

definition run_command :: "ustr list \<Rightarrow> ustr io" where
  "run_command command w =
     (let w1 = w\<lparr>spawned := spawned w @ [command]\<rparr>
      in case run_proc w (length (spawned w)) command of
        NotStarted \<Rightarrow> (Inr [], w1\<lparr>console := console w1 @ [CommandError OSError]\<rparr>)
      | Exited returncode output error \<Rightarrow>
          if returncode \<noteq> 0
          then (Inr [], w1\<lparr>console := console w1 @ [CommandError (CommandFailed error)]\<rparr>)
          else (Inr (strip output), w1))"

subsection \<open>\<open>create_player_page\<close>\<close>

record datetime =
  dt_year :: nat
  dt_month :: nat
  dt_day :: nat
  dt_hour :: nat
  dt_minute :: nat
  dt_second :: nat

definition digit :: "nat \<Rightarrow> nat" where
  "digit n = 48 + n mod 10"

text \<open>\<open>strftime('%Y%m%d_%H%M%S')\<close>, every field zero-padded to its width.\<close>

definition strftime :: "datetime \<Rightarrow> ustr" where
  "strftime t =
     [digit (dt_year t div 1000), digit (dt_year t div 100), digit (dt_year t div 10),
      digit (dt_year t),
      digit (dt_month t div 10), digit (dt_month t),
      digit (dt_day t div 10), digit (dt_day t)] @ lit ''_'' @
     [digit (dt_hour t div 10), digit (dt_hour t),
      digit (dt_minute t div 10), digit (dt_minute t),
      digit (dt_second t div 10), digit (dt_second t)]"

text \<open>Line 51.\<close>

definition video_relative_path :: "(nat \<Rightarrow> bool) \<Rightarrow> ustr \<Rightarrow> ustr" where
  "video_relative_path U title = lit ''../videos/'' @ safe_title U title"

text \<open>Lines 53 to 92: the page, with the title and the video's path filled in.\<close>

definition html_content :: "ustr \<Rightarrow> ustr \<Rightarrow> ustr" where
  \<open>html_content title vrp =
     join [10]
       [[],
        lit ''<!DOCTYPE html>'',
        lit ''<html lang="zh-CN">'',
        lit ''<head>'',
        lit ''    <meta charset="UTF-8">'',
        lit ''    <meta name="viewport" content="width=device-width, initial-scale=1.0">'',
        lit ''    <title>'' @ title @ lit ''</title>'',
        lit ''    <style>'',
        lit ''        body {'',
        lit ''            margin: 0;'',
        lit ''            padding: 0;'',
        lit ''            background: #000;'',
        lit ''            display: flex;'',
        lit ''            flex-direction: column;'',
        lit ''            justify-content: center;'',
        lit ''            align-items: center;'',
        lit ''            min-height: 100vh;'',
        lit ''            color: #fff;'',
        lit ''        }'',
        lit ''        .video-container {'',
        lit ''            width: 100%;'',
        lit ''            max-width: 1920px;'',
        lit ''            margin: 20px auto;'',
        lit ''            padding: 0 20px;'',
        lit ''        }'',
        lit ''        video {'',
        lit ''            width: 100%;'',
        lit ''            max-height: 85vh;'',
        lit ''        }'',
        lit ''    </style>'',
        lit ''</head>'',
        lit ''<body>'',
        lit ''    <div class="video-container">'',
        lit ''        <video controls preload="metadata">'',
        lit ''            <source src="'' @ vrp @ lit ''" type="video/mp4">'',
        lit ''        </video>'',
        lit ''    </div>'',
        lit ''</body>'',
        lit ''</html>'',
        []]\<close>

text \<open>Lines 93 and 94.\<close>

definition page_name :: "(nat \<Rightarrow> bool) \<Rightarrow> datetime \<Rightarrow> ustr \<Rightarrow> ustr" where
  "page_name U now title = strftime now @ lit ''_'' @ safe_title U title @ lit ''.html''"

definition create_player_page ::
  "(nat \<Rightarrow> bool) \<Rightarrow> datetime \<Rightarrow> sharer \<Rightarrow> ppath \<Rightarrow> ustr \<Rightarrow> ppath io" where
  "create_player_page U now self video_path title =
     (let page_path = joinpath (pages_dir self) (page_name U now title)
      in io_bind
           (write_file (path_str page_path) (Html [])
              (Html (html_content title (video_relative_path U title))))
           (\<lambda>_. io_return page_path))"

subsection \<open>\<open>share_video\<close>\<close>

definition repo_url :: ustr where
  "repo_url = lit ''https://estellalin21.github.io/camforu''"

text \<open>Lines 125 and 126.\<close>

definition page_url_of :: "ustr \<Rightarrow> ustr" where
  "page_url_of relative_path = repo_url @ lit ''/'' @ replace_char 92 47 relative_path"

text \<open>Lines 105 to 107, the title handed to the page (line 115), and line 139.\<close>

definition target_path_of :: "(nat \<Rightarrow> bool) \<Rightarrow> sharer \<Rightarrow> ustr \<Rightarrow> ppath" where
  "target_path_of U self video_path =
     joinpath (videos_dir self) (safe_name U (path_name (Path video_path)))"

definition title_of :: "(nat \<Rightarrow> bool) \<Rightarrow> ustr \<Rightarrow> ustr" where
  "title_of U video_path = path_stem (Path (safe_name U (path_name (Path video_path))))"

definition qr_path_of :: "(nat \<Rightarrow> bool) \<Rightarrow> sharer \<Rightarrow> ustr \<Rightarrow> ppath" where
  "qr_path_of U self video_path =
     joinpath (joinpath (repo_path self) (lit ''qrcodes''))
       (title_of U video_path @ lit ''_qr.png'')"

definition share_video ::
  "(nat \<Rightarrow> bool) \<Rightarrow> datetime \<Rightarrow> sharer \<Rightarrow> ustr \<Rightarrow> share_info io" where
  "share_video U now self video_path =
     except_Exception
       (let sname = safe_name U (path_name (Path video_path));
            target_path = target_path_of U self video_path
        in
        io_bind (print_msg Copying) (\<lambda>_.
        io_bind (copy2 video_path (path_str target_path)) (\<lambda>_.
        io_bind (print_msg CreatingPage) (\<lambda>_.
        io_bind (create_player_page U now self target_path (title_of U video_path)) (\<lambda>page_path.
        io_bind (print_msg Committing) (\<lambda>_.
        io_bind (run_command [lit ''git'', lit ''add'', path_str target_path]) (\<lambda>_.
        io_bind (run_command [lit ''git'', lit ''add'', path_str page_path]) (\<lambda>_.
        io_bind (run_command [lit ''git'', lit ''commit'', lit ''-m'', lit ''Add video: '' @ sname]) (\<lambda>_.
        case relative_to page_path (repo_path self) of
          Inl e \<Rightarrow> io_raise e
        | Inr rel \<Rightarrow>
            let page_url = page_url_of (path_str rel);
                qr_path = qr_path_of U self video_path
            in
            io_bind (print_msg MakingQr) (\<lambda>_.
            io_bind (qr_make page_url) (\<lambda>qr_image.
            io_bind (mkdir_exist_ok (path_str (path_parent qr_path))) (\<lambda>_.
            io_bind (write_file (path_str qr_path) (Bytes []) qr_image) (\<lambda>_.
            io_return
              \<lparr>info_video_path = path_str target_path,
               info_page_path = path_str page_path,
               info_page_url = page_url,
               info_qr_path = path_str qr_path\<rparr>)))))))))))))
       (\<lambda>e. io_raise (ShareFailed e))"

subsection \<open>\<open>main\<close>\<close>

text \<open>\<open>input(prompt)\<close>: the line typed, or \<open>EOFError\<close> at the end of the input.\<close>

definition input_line :: "ustr option \<Rightarrow> ustr io" where
  "input_line stdin =
     io_bind (print_msg Prompt) (\<lambda>_.
       case stdin of None \<Rightarrow> io_raise EOFError | Some l \<Rightarrow> io_return l)"

text \<open>Line 166: what the path typed becomes.\<close>

definition typed_path :: "ustr \<Rightarrow> ustr" where
  \<open>typed_path l = strip_chars (lit ''"'') (strip l)\<close>

definition print_info :: "share_info \<Rightarrow> unit io" where
  "print_info info =
     io_bind (print_msg Success) (\<lambda>_.
     io_bind (print_msg (ShowVideoPath (info_video_path info))) (\<lambda>_.
     io_bind (print_msg (ShowPagePath (info_page_path info))) (\<lambda>_.
     io_bind (print_msg (ShowPageUrl (info_page_url info))) (\<lambda>_.
     io_bind (print_msg (ShowQrPath (info_qr_path info))) (\<lambda>_.
     io_bind (print_msg PushNote) (\<lambda>_.
     print_msg PushCommand))))))"

text \<open>Lines 167 to 181, run with the sharer and the path typed.\<close>

definition share_typed ::
  "(nat \<Rightarrow> bool) \<Rightarrow> datetime \<Rightarrow> sharer \<Rightarrow> ustr \<Rightarrow> unit io" where
  "share_typed U now sharer video_path w =
     (if \<not> os_path_exists w video_path then print_msg NotExist w
      else io_bind (print_msg Processing) (\<lambda>_.
           io_bind (share_video U now sharer video_path) print_info) w)"

definition main :: "(nat \<Rightarrow> bool) \<Rightarrow> datetime \<Rightarrow> ustr option \<Rightarrow> unit io" where
  "main U now stdin =
     io_bind (print_msg Banner) (\<lambda>_.
     except_Exception
       (io_bind getcwd (\<lambda>repo.
        io_bind (print_msg (UsingCwd repo)) (\<lambda>_.
        io_bind (GitLFSVideoShare repo) (\<lambda>sharer.
        io_bind (input_line stdin) (\<lambda>l.
        share_typed U now sharer (typed_path l))))))
       (\<lambda>e. print_msg (MainError e)))"

section \<open>A concrete run\<close>

text \<open>
  An ASCII-only Unicode table, a clock, and a world after \<open>setup_repository\<close>: the
  repository at \<open>/repo\<close> with its two directories, one video outside it, and a
  version-control tool that fails every time with status 1.
\<close>

definition no_unicode :: "nat \<Rightarrow> bool" where
  "no_unicode c = False"

definition now0 :: datetime where
  "now0 = \<lparr>dt_year = 2024, dt_month = 1, dt_day = 1, dt_hour = 12, dt_minute = 0, dt_second = 0\<rparr>"

definition world1 :: world where
  "world1 =
     \<lparr>dirs = {[], [lit ''home''], [lit ''repo''], [lit ''repo'', lit ''videos''],
              [lit ''repo'', lit ''pages'']},
      files = [[lit ''home'', lit ''My Clip.mov''] \<mapsto> Bytes [1, 2, 3]],
      cwd = [lit ''repo''],
      faulty = (\<lambda>_. False),
      run_proc = (\<lambda>n cmd. Exited 1 [] (lit ''fatal'')),
      spawned = [],
      console = []\<rparr>"

text \<open>
  The same place before \<open>setup_repository\<close>, and two environments that refuse to
  create one of the two directories.
\<close>

definition world0 :: world where
  "world0 =
     \<lparr>dirs = {[], [lit ''home''], [lit ''repo'']},
      files = [[lit ''home'', lit ''My Clip.mov''] \<mapsto> Bytes [1, 2, 3]],
      cwd = [lit ''repo''],
      faulty = (\<lambda>_. False),
      run_proc = (\<lambda>n cmd. Exited 1 [] (lit ''fatal'')),
      spawned = [],
      console = []\<rparr>"



definition info0 :: share_info where
  "info0 =
     \<lparr>info_video_path = lit ''/repo/videos/My Clip.mov'',
      info_page_path = lit ''/repo/pages/20240101_120000_My Clip.html'',
      info_page_url = lit ''https://estellalin21.github.io/camforu/pages/20240101_120000_My Clip.html'',
      info_qr_path = lit ''/repo/qrcodes/My Clip_qr.png''\<rparr>"

section \<open>Relations used in the proofs\<close>

text \<open>
  Two worlds with the same file system, working directory, environment faults and
  list of started processes: they may differ in what external processes do and in
  what has been printed.
\<close>

definition same_fs :: "world \<Rightarrow> world \<Rightarrow> bool" where
  "same_fs a b =
     (dirs a = dirs b \<and> files a = files b \<and> cwd a = cwd b \<and> faulty a = faulty b \<and>
      spawned a = spawned b)"

text \<open>A computation whose result and file system do not depend on them.\<close>

definition proc_blind :: "'a io \<Rightarrow> bool" where
  "proc_blind m =
     (\<forall>a b. same_fs a b \<longrightarrow> fst (m a) = fst (m b) \<and> same_fs (snd (m a)) (snd (m b)))"

text \<open>A computation that raises nothing but \<open>Exception\<close>s.\<close>

definition raises_Exceptions :: "'a io \<Rightarrow> bool" where
  "raises_Exceptions m = (\<forall>w e w'. m w = (Inl e, w') \<longrightarrow> is_Exception e)"

text \<open>
  A path as \<open>Path\<close> builds it, and a name that is one ordinary part: not empty, no
  slash, neither \<open>.\<close> nor \<open>..\<close>.
\<close>

definition plain_path :: "ppath \<Rightarrow> bool" where
  "plain_path p = (p_root p \<in> {[], lit ''/'', lit ''//''} \<and> [] \<notin> set (p_parts p))"

definition plain_name :: "ustr \<Rightarrow> bool" where
  "plain_name s = (47 \<notin> set s \<and> s \<noteq> [] \<and> s \<noteq> lit ''.'' \<and> s \<noteq> lit ''..'')"

text \<open>A computation that removes no file and no directory.\<close>

definition keeps_files :: "'a io \<Rightarrow> bool" where
  "keeps_files m =
     (\<forall>w. dirs w \<subseteq> dirs (snd (m w)) \<and> dom (files w) \<subseteq> dom (files (snd (m w))))"

text \<open>
  Where a copy into the videos directory can land, seen from the resolved repository
  root \<open>r\<close>: under \<open>r/videos\<close>, or no more than one name below \<open>r\<close>.
\<close>

definition near_videos :: "fpath \<Rightarrow> fpath \<Rightarrow> bool" where
  "near_videos r p = ((\<exists>rest. p = r @ lit ''videos'' # rest) \<or> length p \<le> length r + 1)"

text \<open>
  A computation that, in a world where the repository path resolves to \<open>r\<close>, leaves
  that so and leaves every file at such a place as it is.
\<close>

definition leaves_videos :: "ustr \<Rightarrow> fpath \<Rightarrow> 'a io \<Rightarrow> bool" where
  "leaves_videos repo r m =
     (\<forall>w. os_resolve w (path_str (Path repo)) = Some r \<longrightarrow>
        os_resolve (snd (m w)) (path_str (Path repo)) = Some r \<and>
        (\<forall>p. near_videos r p \<longrightarrow> files (snd (m w)) p = files w p))"

text \<open>
  The world of the concrete run with an environment in which everything but the copy
  fails: opening or writing a file, creating a directory, building the QR code.
\<close>

definition only_copy_works :: world where
  "only_copy_works =
     world1\<lparr>faulty := (\<lambda>op. case op of CopyFile a b \<Rightarrow> False | _ \<Rightarrow> True)\<rparr>"



section \<open>Unfolding for evaluation\<close>

lemmas str_defs = lit_def strip_def strip_with_def isalnum_def isspace_def no_unicode_def
lemmas path_defs = Path_def joinpath_def path_name_def path_stem_def path_parent_def
  path_str_def rfind_def new_sharer_def relative_to_def
lemmas share_defs = safe_name_def safe_title_def title_of_def target_path_of_def
  qr_path_of_def video_relative_path_def page_name_def

lemmas io_defs = io_bind_def io_return_def io_raise_def except_Exception_def print_msg_def
lemmas os_defs = os_resolve_def os_path_exists_def os_path_isdir_def os_path_basename_def
  os_path_join_def cwd_str_def getcwd_def mkdir_exist_ok_def chdir_def write_file_def copy2_def qr_make_def
lemmas prog_defs = share_video_def create_player_page_def run_command_def page_url_of_def
  repo_url_def strftime_def digit_def replace_char_def

section \<open>Properties of the sanitizers\<close>

lemma set_strip_with: "set (strip_with P s) \<subseteq> set s"
proof -
  have "set (strip_with P s) = set (dropWhile P (rev (dropWhile P s)))"
    by (simp add: strip_with_def)
  also have "\<dots> \<subseteq> set (rev (dropWhile P s))"
    by (rule set_dropWhileD [THEN subsetI])
  also have "\<dots> \<subseteq> set s"
    using set_dropWhileD [of _ P s] by auto
  finally show ?thesis .
qed

lemma strip_with_hd_last:
  assumes "strip_with P s \<noteq> []"
  shows "\<not> P (hd (strip_with P s))" and "\<not> P (last (strip_with P s))"
proof -
  let ?a = "dropWhile P s"
  let ?b = "dropWhile P (rev ?a)"
  from assms have b: "?b \<noteq> []"
    by (simp add: strip_with_def)
  then have "rev ?a \<noteq> []"
    by (metis dropWhile.simps(1))
  then have a: "?a \<noteq> []"
    by simp
  have "last (strip_with P s) = hd ?b"
    using b by (simp add: strip_with_def last_rev)
  then show "\<not> P (last (strip_with P s))"
    using hd_dropWhile [OF b] by simp
  have nP: "\<not> P (hd ?a)"
    using hd_dropWhile [OF a] .
  obtain us where us: "rev ?a = us @ ?b"
    by (metis takeWhile_dropWhile_id)
  then have "?a = rev ?b @ rev us"
    by (metis rev_append rev_rev_ident)
  then have "hd ?a = hd (rev ?b)"
    using b by (metis hd_append2 rev_is_Nil_conv)
  then show "\<not> P (hd (strip_with P s))"
    using nP by (simp add: strip_with_def)
qed

lemma strip_with_idem: "strip_with P (strip_with P s) = strip_with P s"
proof (cases "strip_with P s = []")
  case True
  have "strip_with P [] = []"
    by (simp add: strip_with_def)
  with True show ?thesis by simp
next
  case False
  let ?t = "strip_with P s"
  from strip_with_hd_last [OF False] have h: "\<not> P (hd ?t)" and l: "\<not> P (last ?t)"
    by simp_all
  from False h have d: "dropWhile P ?t = ?t"
    by (cases ?t) auto
  from False l have "\<not> P (hd (rev ?t))"
    by (simp add: hd_rev)
  with False have "dropWhile P (rev ?t) = rev ?t"
    by (cases "rev ?t") auto
  with d show ?thesis
    by (simp add: strip_with_def [of P ?t])
qed

lemma filter_strip_with:
  "filter Q (strip_with P (filter Q s)) = strip_with P (filter Q s)"
proof -
  have "\<forall>c \<in> set (strip_with P (filter Q s)). Q c"
    using set_strip_with [of P "filter Q s"] by auto
  then show ?thesis
    by (simp add: filter_id_conv)
qed

lemma trimmed_strip: "trimmed (strip s)"
  using strip_with_hd_last [of isspace s]
  by (auto simp: trimmed_def strip_def split: list.splits)

lemma isalnum_ascii_punct:
  "\<not> isalnum U 46" "\<not> isalnum U 47" "\<not> isalnum U 92" "\<not> isalnum U 34" "\<not> isalnum U 0"
  by (simp_all add: isalnum_def)

lemma set_safe_name:
  "set (safe_name U s) \<subseteq> {c. isalnum U c \<or> c \<in> set (lit '' -_.'')}"
  using set_strip_with [of isspace "filter (\<lambda>c. isalnum U c \<or> c \<in> set (lit '' -_.'')) s"]
  by (auto simp: safe_name_def strip_def)

lemma set_safe_title:
  "set (safe_title U s) \<subseteq> {c. isalnum U c \<or> c \<in> set (lit '' -_'')}"
  using set_strip_with [of isspace "filter (\<lambda>c. isalnum U c \<or> c \<in> set (lit '' -_'')) s"]
  by (auto simp: safe_title_def strip_def)

lemma no_dot_safe_title: "46 \<notin> set (safe_title U s)"
  using set_safe_title [of U s] isalnum_ascii_punct(1) [of U]
  by (auto simp: lit_def)

section \<open>Strings, paths and the page\<close>

lemma split_on_no_sep: "c \<notin> set s \<Longrightarrow> split_on c s = [s]"
  by (induction s) auto

lemma join_mem: "x \<in> set xs \<Longrightarrow> \<exists>pre post. join sep xs = pre @ x @ post"
proof (induction sep xs rule: join.induct)
  case (1 sep)
  then show ?case by simp
next
  case (2 sep y)
  then have "join sep [y] = [] @ x @ []" by simp
  then show ?case by blast
next
  case (3 sep a b bs)
  show ?case
  proof (cases "x = a")
    case True
    then have "join sep (a # b # bs) = [] @ x @ (sep @ join sep (b # bs))" by simp
    then show ?thesis by blast
  next
    case False
    with 3 obtain pre post where "join sep (b # bs) = pre @ x @ post" by auto
    then have "join sep (a # b # bs) = (a @ sep @ pre) @ x @ post" by simp
    then show ?thesis by blast
  qed
qed

lemma html_has_source:
  \<open>\<exists>pre post. html_content title vrp =
     pre @ lit ''<source src="'' @ vrp @ lit ''" type="video/mp4">'' @ post\<close>
proof -
  let ?line = \<open>lit ''            <source src="'' @ vrp @ lit ''" type="video/mp4">''\<close>
  have "\<exists>pre post. html_content title vrp = pre @ ?line @ post"
    unfolding html_content_def by (rule join_mem) simp
  then obtain pre post where "html_content title vrp = pre @ ?line @ post"
    by blast
  then have \<open>html_content title vrp =
      (pre @ lit ''            '') @ lit ''<source src="'' @ vrp @ lit ''" type="video/mp4">'' @ post\<close>
    by (simp add: lit_def)
  then show ?thesis by blast
qed

lemma ex1: "safe_name U (path_name (Path (lit ''My Clip.mov''))) = lit ''My Clip.mov''"
  by (simp add: str_defs path_defs share_defs)

lemma ex2: "title_of U (lit ''My Clip.mov'') = lit ''My Clip''"
  by (simp add: str_defs path_defs share_defs)

lemma ex3: "video_relative_path U (title_of U (lit ''My Clip.mov'')) = lit ''../videos/My Clip''"
  by (simp add: str_defs path_defs share_defs)

lemma ex4: "path_str (target_path_of U (new_sharer (lit ''/repo'')) (lit ''My Clip.mov'')) = lit ''/repo/videos/My Clip.mov''"
  by (simp add: str_defs path_defs share_defs)

lemma ex5: "path_str (target_path_of U (new_sharer (lit ''/repo'')) (lit ''..'')) = lit ''/repo/videos/..''"
  by (simp add: str_defs path_defs share_defs)

lemma ex6: "path_str (qr_path_of U (new_sharer (lit ''/repo'')) (lit ''a.b.mp4'')) = lit ''/repo/qrcodes/a.b_qr.png''"
  by (simp add: str_defs path_defs share_defs)

lemma ex7: "safe_title U (title_of U (lit ''a.b.mp4'')) = lit ''ab''"
  by (simp add: str_defs path_defs share_defs)

lemma digit_range: "48 \<le> digit n \<and> digit n \<le> 57"
  unfolding digit_def by (simp add: le_Suc_eq)

lemma strftime_chars: "c \<in> set (strftime t) \<Longrightarrow> (48 \<le> c \<and> c \<le> 57) \<or> c = 95"
  using digit_range by (auto simp: strftime_def lit_def)

lemma length_strftime: "length (strftime t) = 15"
  by (simp add: strftime_def lit_def)

lemma safe_title_no_sep: "47 \<notin> set (safe_title U s)" "92 \<notin> set (safe_title U s)"
  using set_safe_title [of U s] isalnum_ascii_punct [of U]
  by (auto simp: lit_def)

lemma safe_name_no_sep: "47 \<notin> set (safe_name U s)" "92 \<notin> set (safe_name U s)"
  using set_safe_name [of U s] isalnum_ascii_punct [of U]
  by (auto simp: lit_def)

lemma page_name_no_sep:
  "47 \<notin> set (page_name U now t)" "92 \<notin> set (page_name U now t)"
  using strftime_chars [of 47 now] strftime_chars [of 92 now] safe_title_no_sep [of U t]
  by (auto simp: page_name_def lit_def)

lemma page_name_long: "2 \<le> length (page_name U now t)"
  by (simp add: page_name_def length_strftime)

lemma Path_single:
  assumes "47 \<notin> set s" "s \<noteq> []" "s \<noteq> lit ''.''"
  shows "Path s = \<lparr>p_root = [], p_parts = [s]\<rparr>"
proof -
  from assms have "hd s \<noteq> 47"
    by (cases s) auto
  with assms(2) have "take 1 s \<noteq> lit ''/''" "take 2 s \<noteq> lit ''//''"
    by (cases s; simp add: lit_def)+
  with assms show ?thesis
    by (simp add: Path_def split_on_no_sep)
qed

lemma Path_page_name:
  "Path (page_name U now t) = \<lparr>p_root = [], p_parts = [page_name U now t]\<rparr>"
proof (rule Path_single)
  show "47 \<notin> set (page_name U now t)" by (rule page_name_no_sep)
  show "page_name U now t \<noteq> []" using page_name_long [of U now t] by auto
  show "page_name U now t \<noteq> lit ''.''" using page_name_long [of U now t] by (auto simp: lit_def)
qed

lemma joinpath_single:
  "Path s = \<lparr>p_root = [], p_parts = [s]\<rparr> \<Longrightarrow> joinpath p s = p\<lparr>p_parts := p_parts p @ [s]\<rparr>"
  by (simp add: joinpath_def)

lemma Path_pages: "Path (lit ''pages'') = \<lparr>p_root = [], p_parts = [lit ''pages'']\<rparr>"
  by (rule Path_single) (simp_all add: lit_def)

lemma Path_videos: "Path (lit ''videos'') = \<lparr>p_root = [], p_parts = [lit ''videos'']\<rparr>"
  by (rule Path_single) (simp_all add: lit_def)

lemma Path_qrcodes: "Path (lit ''qrcodes'') = \<lparr>p_root = [], p_parts = [lit ''qrcodes'']\<rparr>"
  by (rule Path_single) (simp_all add: lit_def)

lemma page_path_parts:
  "joinpath (pages_dir (new_sharer repo)) (page_name U now t) =
     (Path repo)\<lparr>p_parts := p_parts (Path repo) @ [lit ''pages'', page_name U now t]\<rparr>"
  by (simp add: new_sharer_def joinpath_single [OF Path_pages] joinpath_single [OF Path_page_name])

lemma page_relative:
  "relative_to (joinpath (pages_dir (new_sharer repo)) (page_name U now t))
     (repo_path (new_sharer repo)) =
   Inr \<lparr>p_root = [], p_parts = [lit ''pages'', page_name U now t]\<rparr>"
  by (simp add: page_path_parts relative_to_def) (simp add: new_sharer_def)

lemma replace_char_id: "a \<notin> set s \<Longrightarrow> replace_char a b s = s"
  by (induction s) (auto simp: replace_char_def)

lemma page_url_pages:
  "page_url_of (path_str \<lparr>p_root = [], p_parts = [lit ''pages'', page_name U now t]\<rparr>) =
     repo_url @ lit ''/pages/'' @ page_name U now t"
proof -
  have "92 \<notin> set (lit ''pages'' @ lit ''/'' @ page_name U now t)"
    using page_name_no_sep(2) [of U now t] by (simp add: lit_def)
  then show ?thesis
    by (simp add: page_url_of_def path_str_def replace_char_id) (simp add: lit_def)
qed

lemma title_of_take: "\<exists>n. title_of U v = take n (safe_name U (path_name (Path v)))"
proof -
  let ?sn = "safe_name U (path_name (Path v))"
  have parts: "p_parts (Path ?sn) = (if ?sn \<noteq> [] \<and> ?sn \<noteq> lit ''.'' then [?sn] else [])"
    by (simp add: Path_def split_on_no_sep [OF safe_name_no_sep(1)])
  then have "path_name (Path ?sn) = ?sn \<or> path_name (Path ?sn) = take 0 ?sn"
    by (auto simp: path_name_def)
  then have "\<exists>n. path_name (Path ?sn) = take n ?sn"
    by (metis take_all order_refl)
  then obtain n where n: "path_name (Path ?sn) = take n ?sn" ..
  have "path_stem (Path ?sn) = take n ?sn \<or> (\<exists>i. path_stem (Path ?sn) = take i (take n ?sn))"
    by (auto simp: path_stem_def Let_def n)
  then show ?thesis
    unfolding title_of_def by (metis take_take)
qed

lemma title_of_no_sep: "47 \<notin> set (title_of U v)"
proof -
  obtain n where "title_of U v = take n (safe_name U (path_name (Path v)))"
    using title_of_take by blast
  then show ?thesis
    using safe_name_no_sep(1) [of U "path_name (Path v)"] by (auto dest: in_set_takeD)
qed

lemma Path_qr_name:
  "Path (title_of U v @ lit ''_qr.png'') =
     \<lparr>p_root = [], p_parts = [title_of U v @ lit ''_qr.png'']\<rparr>"
proof (rule Path_single)
  show "47 \<notin> set (title_of U v @ lit ''_qr.png'')"
    using title_of_no_sep [of U v] by (simp add: lit_def)
  show "title_of U v @ lit ''_qr.png'' \<noteq> []" by (simp add: lit_def)
  have "length (title_of U v @ lit ''_qr.png'') \<noteq> length (lit ''.'')" by (simp add: lit_def)
  then show "title_of U v @ lit ''_qr.png'' \<noteq> lit ''.''" by metis
qed

lemma qr_path_parts:
  "qr_path_of U (new_sharer repo) v =
     (Path repo)\<lparr>p_parts := p_parts (Path repo) @ [lit ''qrcodes'', title_of U v @ lit ''_qr.png'']\<rparr>"
  by (simp add: qr_path_of_def new_sharer_def joinpath_single [OF Path_qrcodes]
      joinpath_single [OF Path_qr_name])

lemma qr_relative:
  "relative_to (qr_path_of U (new_sharer repo) v) (repo_path (new_sharer repo)) =
   Inr \<lparr>p_root = [], p_parts = [lit ''qrcodes'', title_of U v @ lit ''_qr.png'']\<rparr>"
  by (simp add: qr_path_parts relative_to_def) (simp add: new_sharer_def)

lemma qr_parent:
  "path_parent (qr_path_of U (new_sharer repo) v) = joinpath (Path repo) (lit ''qrcodes'')"
  by (simp add: qr_path_parts path_parent_def joinpath_single [OF Path_qrcodes] butlast_append)

lemma safe_title_id:
  assumes "set s \<subseteq> {c. isalnum U c \<or> c \<in> set (lit '' -_.'')}" "46 \<notin> set s" "trimmed s"
  shows "safe_title U s = s"
proof -
  have "filter (\<lambda>c. isalnum U c \<or> c \<in> set (lit '' -_'')) s = s"
    using assms(1,2) by (auto simp: filter_id_conv lit_def)
  moreover have "strip s = s"
  proof (cases s)
    case Nil
    then show ?thesis by (simp add: strip_def strip_with_def)
  next
    case (Cons a as)
    then have ne: "s \<noteq> []" by simp
    from Cons assms(3) have h: "\<not> isspace (hd s)" and l: "\<not> isspace (last s)"
      by (simp_all add: trimmed_def)
    from ne h have d: "dropWhile isspace s = s" by (cases s) auto
    from ne l have "\<not> isspace (hd (rev s))" by (simp add: hd_rev)
    with ne have "dropWhile isspace (rev s) = rev s" by (cases "rev s") auto
    with d show ?thesis by (simp add: strip_def strip_with_def)
  qed
  ultimately show ?thesis by (simp add: safe_title_def)
qed

lemma title_of_chars: "set (title_of U v) \<subseteq> {c. isalnum U c \<or> c \<in> set (lit '' -_.'')}"
proof -
  obtain n where "title_of U v = take n (safe_name U (path_name (Path v)))"
    using title_of_take by blast
  then show ?thesis
    using set_safe_name [of U "path_name (Path v)"] by (auto dest: in_set_takeD)
qed

section \<open>Runs of the program\<close>

lemma run1:
  "fst (share_video no_unicode now0 (new_sharer (lit ''/repo'')) (lit ''/home/My Clip.mov'') world1) = Inr info0"
  by (simp add: io_defs os_defs prog_defs str_defs path_defs share_defs world1_def now0_def info0_def Let_def)

lemma io_bind_InrE:
  assumes "io_bind m f w = (Inr y, w')"
  obtains x w1 where "m w = (Inr x, w1)" and "f x w1 = (Inr y, w')"
  using assms by (auto simp: io_bind_def split: prod.splits sum.splits)

lemma except_raise_InrD:
  "except_Exception m (\<lambda>e. io_raise (g e)) w = (Inr y, w') \<Longrightarrow> m w = (Inr y, w')"
  by (auto simp: except_Exception_def io_raise_def split: prod.splits sum.splits if_splits)

lemma print_msg_spawned: "print_msg m w = (r, w') \<Longrightarrow> spawned w' = spawned w"
  by (auto simp: print_msg_def)

lemma copy2_spawned: "copy2 a b w = (r, w') \<Longrightarrow> spawned w' = spawned w"
  by (auto simp: copy2_def Let_def split: if_splits option.splits)

lemma write_file_spawned: "write_file s a b w = (r, w') \<Longrightarrow> spawned w' = spawned w"
  by (auto simp: write_file_def split: if_splits option.splits)

lemma mkdir_spawned: "mkdir_exist_ok s w = (r, w') \<Longrightarrow> spawned w' = spawned w"
  by (auto simp: mkdir_exist_ok_def split: if_splits option.splits)

lemma qr_make_spawned: "qr_make u w = (r, w') \<Longrightarrow> spawned w' = spawned w"
  by (auto simp: qr_make_def split: if_splits)

lemma run_command_spawned: "run_command c w = (r, w') \<Longrightarrow> spawned w' = spawned w @ [c]"
  by (auto simp: run_command_def Let_def split: proc_result.splits if_splits)

lemma qr_make_InrD: "qr_make u w = (Inr img, w') \<Longrightarrow> img = QrImage u \<and> w' = w"
  by (auto simp: qr_make_def split: if_splits)

lemma share_video_InrD:
  assumes "share_video U now self v w = (Inr info, w')"
  shows "\<exists>rel wa wb.
     relative_to (joinpath (pages_dir self) (page_name U now (title_of U v))) (repo_path self) = Inr rel \<and>
     info = \<lparr>info_video_path = path_str (target_path_of U self v),
             info_page_path = path_str (joinpath (pages_dir self) (page_name U now (title_of U v))),
             info_page_url = page_url_of (path_str rel),
             info_qr_path = path_str (qr_path_of U self v)\<rparr> \<and>
     mkdir_exist_ok (path_str (path_parent (qr_path_of U self v))) wa = (Inr (), wb) \<and>
     write_file (path_str (qr_path_of U self v)) (Bytes []) (QrImage (page_url_of (path_str rel))) wb = (Inr (), w') \<and>
     spawned w' = spawned w @
       [[lit ''git'', lit ''add'', path_str (target_path_of U self v)],
        [lit ''git'', lit ''add'', path_str (joinpath (pages_dir self) (page_name U now (title_of U v)))],
        [lit ''git'', lit ''commit'', lit ''-m'', lit ''Add video: '' @ safe_name U (path_name (Path v))]]"
proof -
  from assms [unfolded share_video_def Let_def create_player_page_def]
  show ?thesis
    apply -
    apply (drule except_raise_InrD)
    apply (elim io_bind_InrE)
    apply (clarsimp simp: io_raise_def split: sum.splits
           dest!: print_msg_spawned copy2_spawned write_file_spawned
             run_command_spawned)
    apply (elim io_bind_InrE)
    apply (clarsimp simp: io_return_def dest!: print_msg_spawned qr_make_InrD)
    apply (frule mkdir_spawned)
    apply (frule write_file_spawned)
    apply auto
    done
qed

lemma walk_mono: "D \<subseteq> D' \<Longrightarrow> walk D cur cs = Some p \<Longrightarrow> walk D' cur cs = Some p"
proof (induction cs arbitrary: cur)
  case Nil
  then show ?case by simp
next
  case (Cons c cs)
  from Cons.prems have "cur \<in> D"
    by (auto split: if_splits)
  with Cons.prems(1) have "cur \<in> D'" by blast
  with Cons show ?case
    by (auto split: if_splits)
qed

lemma os_resolve_mono:
  "dirs a \<subseteq> dirs b \<Longrightarrow> cwd a = cwd b \<Longrightarrow> os_resolve a s = Some p \<Longrightarrow> os_resolve b s = Some p"
  by (auto simp: os_resolve_def split: if_splits intro: walk_mono)

lemma mkdir_InrD:
  assumes "mkdir_exist_ok s w = (Inr u, w')"
  shows "\<exists>q. os_resolve w s = Some q \<and> q \<in> dirs w' \<and> dirs w' = insert q (dirs w) \<and>
           cwd w' = cwd w \<and> files w' = files w"
  using assms by (auto simp: mkdir_exist_ok_def split: if_splits option.splits)

lemma write_file_InrD:
  assumes "write_file s blank data w = (Inr u, w')"
  shows "\<exists>p. os_resolve w s = Some p \<and> files w' = (files w)(p \<mapsto> data) \<and>
           dirs w' = dirs w \<and> cwd w' = cwd w"
  using assms by (auto simp: write_file_def split: if_splits option.splits)

lemma run1_pair:
  "share_video no_unicode now0 (new_sharer (lit ''/repo'')) (lit ''/home/My Clip.mov'') world1 =
     (Inr info0,
      snd (share_video no_unicode now0 (new_sharer (lit ''/repo'')) (lit ''/home/My Clip.mov'') world1))"
  using run1 by (metis prod.collapse)

lemma page_url_no_backslash: "92 \<notin> set (page_url_of s)"
  by (auto simp: page_url_of_def repo_url_def replace_char_def lit_def)

lemma page_url_backslash:
  "page_url_of (lit ''pages'' @ [92] @ page_name U now t) =
     repo_url @ lit ''/pages/'' @ page_name U now t"
proof -
  have "replace_char 92 47 (page_name U now t) = page_name U now t"
    using page_name_no_sep(2) by (rule replace_char_id)
  moreover have "replace_char 92 47 (lit ''pages'' @ [92] @ page_name U now t) =
      lit ''pages/'' @ replace_char 92 47 (page_name U now t)"
    by (simp add: replace_char_def lit_def)
  ultimately show ?thesis
    by (simp add: page_url_of_def) (simp add: lit_def)
qed

lemma world1_resolve_up: "os_resolve world1 (lit ''/repo/videos/..'') = Some [lit ''repo'']"
  by (simp add: os_defs str_defs world1_def)

lemma run1_files:
  "files (snd (share_video no_unicode now0 (new_sharer (lit ''/repo'')) (lit ''/home/My Clip.mov'') world1))
     [lit ''repo'', lit ''videos'', lit ''My Clip.mov''] = Some (Bytes [1, 2, 3])"
  "files (snd (share_video no_unicode now0 (new_sharer (lit ''/repo'')) (lit ''/home/My Clip.mov'') world1))
     [lit ''repo'', lit ''pages'', lit ''20240101_120000_My Clip.html''] =
     Some (Html (html_content (lit ''My Clip'') (lit ''../videos/My Clip'')))"
  by (simp_all add: io_defs os_defs prog_defs str_defs path_defs share_defs world1_def now0_def Let_def)

lemma run1_world:
  "spawned (snd (share_video no_unicode now0 (new_sharer (lit ''/repo'')) (lit ''/home/My Clip.mov'') world1)) =
     [[lit ''git'', lit ''add'', lit ''/repo/videos/My Clip.mov''],
      [lit ''git'', lit ''add'', lit ''/repo/pages/20240101_120000_My Clip.html''],
      [lit ''git'', lit ''commit'', lit ''-m'', lit ''Add video: My Clip.mov'']]"
  "console (snd (share_video no_unicode now0 (new_sharer (lit ''/repo'')) (lit ''/home/My Clip.mov'') world1)) =
     [Copying, CreatingPage, Committing,
      CommandError (CommandFailed (lit ''fatal'')),
      CommandError (CommandFailed (lit ''fatal'')),
      CommandError (CommandFailed (lit ''fatal'')),
      MakingQr]"
  by (simp_all add: io_defs os_defs prog_defs str_defs path_defs share_defs world1_def now0_def Let_def)

lemma page_source_has_no_dot:
  "video_relative_path U t = lit ''../videos/'' @ safe_title U t \<and> 46 \<notin> set (safe_title U t)"
  by (simp add: video_relative_path_def no_dot_safe_title)

section \<open>External processes do not steer the program\<close>

lemma same_fs_resolve: "same_fs a b \<Longrightarrow> os_resolve a s = os_resolve b s"
  by (simp add: same_fs_def os_resolve_def)

lemma same_fs_isdir: "same_fs a b \<Longrightarrow> os_path_isdir a s = os_path_isdir b s"
  using same_fs_resolve [of a b s]
  by (auto simp: os_path_isdir_def same_fs_def split: option.splits)

lemma proc_blind_return: "proc_blind (io_return x)"
  by (simp add: proc_blind_def io_return_def)

lemma proc_blind_raise: "proc_blind (io_raise e)"
  by (simp add: proc_blind_def io_raise_def)

lemma proc_blind_print: "proc_blind (print_msg x)"
  by (simp add: proc_blind_def print_msg_def same_fs_def)

lemma proc_blind_qr_make: "proc_blind (qr_make u)"
  by (simp add: proc_blind_def qr_make_def same_fs_def)

lemma proc_blind_mkdir: "proc_blind (mkdir_exist_ok s)"
proof -
  have "fst (mkdir_exist_ok s a) = fst (mkdir_exist_ok s b) \<and>
        same_fs (snd (mkdir_exist_ok s a)) (snd (mkdir_exist_ok s b))" if "same_fs a b" for a b
    using that same_fs_resolve [OF that, of s]
    by (auto simp: mkdir_exist_ok_def same_fs_def split: option.splits)
  then show ?thesis by (simp add: proc_blind_def)
qed

lemma proc_blind_write_file: "proc_blind (write_file s x y)"
proof -
  have "fst (write_file s x y a) = fst (write_file s x y b) \<and>
        same_fs (snd (write_file s x y a)) (snd (write_file s x y b))" if "same_fs a b" for a b
    using that same_fs_resolve [OF that, of s]
    by (auto simp: write_file_def same_fs_def split: option.splits)
  then show ?thesis by (simp add: proc_blind_def)
qed

lemma proc_blind_copy2: "proc_blind (copy2 s t)"
proof -
  have "fst (copy2 s t a) = fst (copy2 s t b) \<and>
        same_fs (snd (copy2 s t a)) (snd (copy2 s t b))" if "same_fs a b" for a b
  proof -
    have r: "os_resolve a = os_resolve b"
      using same_fs_resolve [OF that] by auto
    have i: "os_path_isdir a t = os_path_isdir b t"
      by (rule same_fs_isdir [OF that])
    from that have f: "files a = files b" "dirs a = dirs b" "faulty a = faulty b"
      by (simp_all add: same_fs_def)
    show ?thesis
      using that by (auto simp: copy2_def Let_def r i f same_fs_def split: option.splits)
  qed
  then show ?thesis by (simp add: proc_blind_def)
qed

lemma proc_blind_bind:
  assumes "proc_blind m" and "\<And>x. proc_blind (f x)"
  shows "proc_blind (io_bind m f)"
proof -
  have "fst (io_bind m f a) = fst (io_bind m f b) \<and>
        same_fs (snd (io_bind m f a)) (snd (io_bind m f b))" if ab: "same_fs a b" for a b
  proof -
    from assms(1) ab have m: "fst (m a) = fst (m b)" "same_fs (snd (m a)) (snd (m b))"
      by (simp_all add: proc_blind_def)
    show ?thesis
    proof (cases "fst (m a)")
      case (Inl e)
      with m show ?thesis
        by (auto simp: io_bind_def split: prod.splits sum.splits)
    next
      case (Inr x)
      from assms(2) [of x] m(2)
      have "fst (f x (snd (m a))) = fst (f x (snd (m b)))"
        "same_fs (snd (f x (snd (m a)))) (snd (f x (snd (m b))))"
        by (simp_all add: proc_blind_def)
      with Inr m(1) show ?thesis
        by (auto simp: io_bind_def split: prod.splits sum.splits)
    qed
  qed
  then show ?thesis by (simp add: proc_blind_def)
qed

lemma proc_blind_except:
  assumes "proc_blind m" and "\<And>e. proc_blind (h e)"
  shows "proc_blind (except_Exception m h)"
proof -
  have "fst (except_Exception m h a) = fst (except_Exception m h b) \<and>
        same_fs (snd (except_Exception m h a)) (snd (except_Exception m h b))"
    if ab: "same_fs a b" for a b
  proof -
    from assms(1) ab have m: "fst (m a) = fst (m b)" "same_fs (snd (m a)) (snd (m b))"
      by (simp_all add: proc_blind_def)
    show ?thesis
    proof (cases "fst (m a)")
      case (Inl e)
      from assms(2) [of e] m(2)
      have "fst (h e (snd (m a))) = fst (h e (snd (m b)))"
        "same_fs (snd (h e (snd (m a)))) (snd (h e (snd (m b))))"
        by (simp_all add: proc_blind_def)
      with Inl m show ?thesis
        by (auto simp: except_Exception_def split: prod.splits sum.splits)
    next
      case (Inr x)
      with m show ?thesis
        by (auto simp: except_Exception_def split: prod.splits sum.splits)
    qed
  qed
  then show ?thesis by (simp add: proc_blind_def)
qed

text \<open>What \<open>_run_command\<close> returns is thrown away by its caller.\<close>

lemma run_command_same_fs:
  "same_fs a b \<Longrightarrow> same_fs (snd (run_command c a)) (snd (run_command c b))"
  by (auto simp: run_command_def Let_def same_fs_def split: proc_result.splits)

lemma run_command_returns: "\<exists>r. fst (run_command c w) = Inr r"
  by (auto simp: run_command_def Let_def split: proc_result.splits)

lemma proc_blind_run_command:
  assumes "proc_blind k"
  shows "proc_blind (io_bind (run_command c) (\<lambda>_. k))"
proof -
  have "fst (io_bind (run_command c) (\<lambda>_. k) a) = fst (io_bind (run_command c) (\<lambda>_. k) b) \<and>
        same_fs (snd (io_bind (run_command c) (\<lambda>_. k) a)) (snd (io_bind (run_command c) (\<lambda>_. k) b))"
    if ab: "same_fs a b" for a b
  proof -
    obtain ra rb where r: "fst (run_command c a) = Inr ra" "fst (run_command c b) = Inr rb"
      using run_command_returns by blast
    then have "io_bind (run_command c) (\<lambda>_. k) a = k (snd (run_command c a))"
      "io_bind (run_command c) (\<lambda>_. k) b = k (snd (run_command c b))"
      by (auto simp: io_bind_def split: prod.splits sum.splits)
    with assms run_command_same_fs [OF ab, of c] show ?thesis
      by (simp add: proc_blind_def)
  qed
  then show ?thesis by (simp add: proc_blind_def)
qed

lemma proc_blind_share_video: "proc_blind (share_video U now self v)"
  unfolding share_video_def Let_def create_player_page_def
  by (intro proc_blind_except proc_blind_bind proc_blind_run_command proc_blind_print
      proc_blind_copy2 proc_blind_write_file proc_blind_return proc_blind_raise)
    (auto split: sum.splits intro!: proc_blind_bind proc_blind_print proc_blind_qr_make
      proc_blind_mkdir proc_blind_write_file proc_blind_return proc_blind_raise)

lemma same_fs_run_proc: "same_fs (w\<lparr>run_proc := p\<rparr>) w"
  by (simp add: same_fs_def)

lemma run_command_failure:
  assumes "run_proc w (length (spawned w)) cmd = Exited rc out err" and "rc \<noteq> 0"
  shows "run_command cmd w =
     (Inr [], w\<lparr>spawned := spawned w @ [cmd],
                console := console w @ [CommandError (CommandFailed err)]\<rparr>)"
  using assms by (simp add: run_command_def Let_def)

lemma share_video_spawned:
  assumes "fst (share_video U now self v w) = Inr info"
  shows "spawned (snd (share_video U now self v w)) = spawned w @
       [[lit ''git'', lit ''add'', info_video_path info],
        [lit ''git'', lit ''add'', info_page_path info],
        [lit ''git'', lit ''commit'', lit ''-m'', lit ''Add video: '' @ safe_name U (path_name (Path v))]]"
proof -
  from assms obtain w' where run: "share_video U now self v w = (Inr info, w')"
    by (metis prod.collapse)
  from share_video_InrD [OF run] show ?thesis
    using run by auto
qed

section \<open>What can be raised\<close>










lemma re_getcwd: "raises_Exceptions getcwd"
  by (auto simp: raises_Exceptions_def getcwd_def split: if_splits)














lemma cwd_str_console: "cwd_str (w\<lparr>console := c\<rparr>) = cwd_str w"
  by (simp add: cwd_str_def)


lemmas main_defs = main_def GitLFSVideoShare_def setup_repository_def input_line_def
  typed_path_def share_typed_def print_info_def strip_chars_def




section \<open>Resolving the paths the program builds\<close>

lemma split_on_ne: "split_on c s \<noteq> []"
  by (induction s) (auto split: list.splits)

lemma split_on_append: "split_on c (a @ c # b) = split_on c a @ split_on c b"
proof (induction a)
  case Nil
  then show ?case by simp
next
  case (Cons x xs)
  then show ?case
    using split_on_ne [of c xs] by (cases "split_on c xs") auto
qed

lemma join_snoc: "xs \<noteq> [] \<Longrightarrow> join sep (xs @ [x]) = join sep xs @ sep @ x"
  by (induction sep xs rule: join.induct) auto

lemma walk_append:
  "walk D cur (xs @ ys) = (case walk D cur xs of None \<Rightarrow> None | Some c \<Rightarrow> walk D c ys)"
  by (induction xs arbitrary: cur) auto

lemma walk_plain:
  "plain_name s \<Longrightarrow> walk D cur [s] = (if cur \<in> D then Some (cur @ [s]) else None)"
  by (simp add: plain_name_def)

lemma plain_Path: "plain_path (Path s)"
  by (auto simp: plain_path_def Path_def)

lemma plain_path_snoc: "plain_path p \<Longrightarrow> s \<noteq> [] \<Longrightarrow> plain_path (p\<lparr>p_parts := p_parts p @ [s]\<rparr>)"
  by (auto simp: plain_path_def)

lemma path_str_ne: "p_parts p \<noteq> [] \<Longrightarrow> hd (p_parts p) \<noteq> [] \<Longrightarrow> path_str p \<noteq> []"
proof (cases "p_parts p")
  case Nil
  assume "p_parts p \<noteq> []"
  with Nil show ?thesis by simp
next
  case (Cons a as)
  assume "hd (p_parts p) \<noteq> []"
  with Cons show ?thesis
    by (cases as) (simp_all add: path_str_def)
qed

lemma os_resolve_child:
  assumes "plain_path p" and "plain_name s"
  shows "os_resolve w (path_str (p\<lparr>p_parts := p_parts p @ [s]\<rparr>)) =
     (case os_resolve w (path_str p) of
        None \<Rightarrow> None
      | Some r \<Rightarrow> if r \<in> dirs w then Some (r @ [s]) else None)"
proof (cases "p_parts p = []")
  case True
  from assms(2) have s: "47 \<notin> set s" "s \<noteq> []" "s \<noteq> lit ''.''" "s \<noteq> lit ''..''"
    by (simp_all add: plain_name_def)
  then have hd: "hd s \<noteq> 47" by (cases s) auto
  from assms(1) have "p_root p = [] \<or> p_root p = lit ''/'' \<or> p_root p = lit ''//''"
    by (simp add: plain_path_def)
  then show ?thesis
  proof (elim disjE)
    assume "p_root p = []"
    with True s hd show ?thesis
      by (simp add: path_str_def os_resolve_def split_on_no_sep) (simp add: lit_def)
  next
    assume r: "p_root p = lit ''/''"
    have "split_on 47 (lit ''/'' @ s) = [[], s]"
      using split_on_append [of 47 "[]" s] s by (simp add: lit_def split_on_no_sep)
    with r True s show ?thesis
      by (simp add: path_str_def os_resolve_def) (simp add: lit_def)
  next
    assume r: "p_root p = lit ''//''"
    have "split_on 47 (lit ''//'' @ s) = [[], [], s]"
      using split_on_append [of 47 "[47]" s] s by (simp add: lit_def split_on_no_sep)
    with r True s show ?thesis
      by (simp add: path_str_def os_resolve_def) (simp add: lit_def)
  qed
next
  case False
  let ?x = "path_str p"
  from assms(2) have s: "47 \<notin> set s"
    by (simp add: plain_name_def)
  from False have x: "?x = p_root p @ join (lit ''/'') (p_parts p)"
    by (simp add: path_str_def)
  from False assms(1) have "hd (p_parts p) \<noteq> []"
    by (cases "p_parts p") (auto simp: plain_path_def)
  with False have ne: "?x \<noteq> []"
    by (rule path_str_ne)
  define st where "st = (if hd ?x = 47 then [] else cwd w)"
  from False have c: "path_str (p\<lparr>p_parts := p_parts p @ [s]\<rparr>) = ?x @ 47 # s"
    by (simp add: path_str_def join_snoc) (simp add: lit_def)
  have sp: "split_on 47 (?x @ 47 # s) = split_on 47 ?x @ [s]"
    by (simp add: split_on_append split_on_no_sep [OF s])
  from ne have hd: "hd (?x @ 47 # s) = hd ?x"
    by simp
  from ne have a: "os_resolve w ?x = walk (dirs w) st (split_on 47 ?x)"
    by (simp add: os_resolve_def st_def)
  have "os_resolve w (?x @ 47 # s) = walk (dirs w) st (split_on 47 ?x @ [s])"
    unfolding os_resolve_def sp hd st_def by simp
  also have "\<dots> = (case walk (dirs w) st (split_on 47 ?x) of
      None \<Rightarrow> None | Some r \<Rightarrow> walk (dirs w) r [s])"
    by (rule walk_append)
  also have "\<dots> = (case os_resolve w ?x of
      None \<Rightarrow> None | Some r \<Rightarrow> if r \<in> dirs w then Some (r @ [s]) else None)"
    unfolding a walk_plain [OF assms(2)] ..
  finally show ?thesis
    unfolding c .
qed

lemma plain_literals:
  "plain_name (lit ''videos'')" "plain_name (lit ''pages'')" "plain_name (lit ''qrcodes'')"
  by (simp_all add: plain_name_def lit_def)

lemma mkdir_InrD':
  assumes "mkdir_exist_ok s w = (Inr u, w')"
  shows "\<exists>q. os_resolve w s = Some q \<and> w' = w\<lparr>dirs := insert q (dirs w)\<rparr>"
  using assms
  by (auto simp: mkdir_exist_ok_def insert_absorb split: if_splits option.splits)

lemma chdir_InrD:
  assumes "chdir s w = (Inr u, w')"
  shows "\<exists>q. os_resolve w s = Some q \<and> q \<in> dirs w \<and> w' = w\<lparr>cwd := q\<rparr>"
  using assms by (auto simp: chdir_def split: if_splits option.splits)

lemma os_resolve_dirs_update:
  "os_resolve w s = Some r \<Longrightarrow> dirs w \<subseteq> D \<Longrightarrow> os_resolve (w\<lparr>dirs := D\<rparr>) s = Some r"
  by (rule os_resolve_mono [of w]) simp_all

lemma except_InrD:
  assumes "except_Exception m h w = (Inr x, w')" and "\<And>e v. fst (h e v) \<noteq> Inr x"
  shows "m w = (Inr x, w')"
  using assms
  by (auto simp: except_Exception_def split: prod.splits sum.splits if_splits)
     (metis fst_conv)

lemma setup_repository_InrD:
  assumes "setup_repository (new_sharer repo) w = (Inr u, w')"
  shows "\<exists>r. os_resolve w (path_str (Path repo)) = Some r \<and> r \<in> dirs w \<and>
     w' = w\<lparr>dirs := insert (r @ [lit ''pages'']) (insert (r @ [lit ''videos'']) (dirs w)),
            cwd := r\<rparr>"
proof -
  let ?P = "Path repo"
  have v: "videos_dir (new_sharer repo) = ?P\<lparr>p_parts := p_parts ?P @ [lit ''videos'']\<rparr>"
    and p: "pages_dir (new_sharer repo) = ?P\<lparr>p_parts := p_parts ?P @ [lit ''pages'']\<rparr>"
    and r: "repo_path (new_sharer repo) = ?P"
    by (simp_all add: new_sharer_def joinpath_single [OF Path_videos] joinpath_single [OF Path_pages])
  have "fst (io_bind (print_msg (SetupFailed e)) (\<lambda>_. io_raise (SystemExit 1)) x) \<noteq> Inr u" for e x
    by (simp add: io_bind_def print_msg_def io_raise_def)
  with assms have "io_bind (mkdir_exist_ok (path_str (videos_dir (new_sharer repo)))) (\<lambda>_.
        io_bind (mkdir_exist_ok (path_str (pages_dir (new_sharer repo)))) (\<lambda>_.
        chdir (path_str (repo_path (new_sharer repo))))) w = (Inr u, w')"
    unfolding setup_repository_def by (rule except_InrD)
  then obtain w1 w2 a b where
    1: "mkdir_exist_ok (path_str (videos_dir (new_sharer repo))) w = (Inr a, w1)"
    and 2: "mkdir_exist_ok (path_str (pages_dir (new_sharer repo))) w1 = (Inr b, w2)"
    and 3: "chdir (path_str (repo_path (new_sharer repo))) w2 = (Inr u, w')"
    by (elim io_bind_InrE)
  from mkdir_InrD' [OF 1] obtain q1 where
    q1: "os_resolve w (path_str (videos_dir (new_sharer repo))) = Some q1"
    and w1: "w1 = w\<lparr>dirs := insert q1 (dirs w)\<rparr>"
    by blast
  from q1 obtain r where r0: "os_resolve w (path_str ?P) = Some r" and rd: "r \<in> dirs w"
    and q1': "q1 = r @ [lit ''videos'']"
    unfolding v os_resolve_child [OF plain_Path plain_literals(1)]
    by (auto split: option.splits if_splits)
  from r0 have r1: "os_resolve w1 (path_str ?P) = Some r"
    unfolding w1 by (rule os_resolve_dirs_update) auto
  from mkdir_InrD' [OF 2] obtain q2 where
    q2: "os_resolve w1 (path_str (pages_dir (new_sharer repo))) = Some q2"
    and w2: "w2 = w1\<lparr>dirs := insert q2 (dirs w1)\<rparr>"
    by blast
  from q2 r1 have q2': "q2 = r @ [lit ''pages'']"
    unfolding p os_resolve_child [OF plain_Path plain_literals(2)]
    by (auto split: option.splits if_splits)
  from r1 have r2: "os_resolve w2 (path_str ?P) = Some r"
    unfolding w2 by (rule os_resolve_dirs_update) auto
  from chdir_InrD [OF 3] r2 have "w' = w2\<lparr>cwd := r\<rparr>"
    by (auto simp: r)
  with w1 w2 q1' q2' have "w' = w\<lparr>dirs := insert (r @ [lit ''pages'']) (insert (r @ [lit ''videos'']) (dirs w)),
            cwd := r\<rparr>"
    by simp
  with r0 rd show ?thesis by blast
qed

lemma os_resolve_console: "os_resolve (w\<lparr>console := c\<rparr>) s = os_resolve w s"
  by (simp add: os_resolve_def)

lemma os_path_exists_console: "os_path_exists (w\<lparr>console := c\<rparr>) s = os_path_exists w s"
  by (simp add: os_path_exists_def os_resolve_console split: option.splits)

lemma main_missing_input:
  assumes "cwd w \<in> dirs w"
    and "setup_repository (new_sharer (cwd_str w))
           (w\<lparr>console := console w @ [Banner, UsingCwd (cwd_str w)]\<rparr>) = (Inr (), ws)"
    and "\<not> os_path_exists ws (typed_path l)"
  shows "main U now (Some l) w = (Inr (), ws\<lparr>console := console ws @ [Prompt, NotExist]\<rparr>)"
  using assms
  by (simp add: main_def io_bind_def getcwd_def print_msg_def GitLFSVideoShare_def
      input_line_def share_typed_def except_Exception_def io_return_def cwd_str_console
      os_path_exists_console)

section \<open>Nothing is removed\<close>

lemma keeps_return: "keeps_files (io_return x)"
  by (simp add: keeps_files_def io_return_def)

lemma keeps_raise: "keeps_files (io_raise e)"
  by (simp add: keeps_files_def io_raise_def)

lemma keeps_print: "keeps_files (print_msg x)"
  by (simp add: keeps_files_def print_msg_def)

lemma keeps_qr_make: "keeps_files (qr_make u)"
  by (simp add: keeps_files_def qr_make_def)

lemma keeps_getcwd: "keeps_files getcwd"
  by (simp add: keeps_files_def getcwd_def)

lemma keeps_run_command: "keeps_files (run_command c)"
  by (auto simp: keeps_files_def run_command_def Let_def split: proc_result.splits)

lemma keeps_mkdir: "keeps_files (mkdir_exist_ok s)"
  by (auto simp: keeps_files_def mkdir_exist_ok_def split: option.splits)

lemma keeps_chdir: "keeps_files (chdir s)"
  by (auto simp: keeps_files_def chdir_def split: option.splits)

lemma keeps_write_file: "keeps_files (write_file s x y)"
  by (auto simp: keeps_files_def write_file_def split: option.splits)

lemma keeps_copy2: "keeps_files (copy2 s t)"
  by (auto simp: keeps_files_def copy2_def Let_def split: option.splits)

lemma keeps_bind:
  assumes "keeps_files m" and "\<And>x. keeps_files (f x)"
  shows "keeps_files (io_bind m f)"
  unfolding keeps_files_def
proof
  fix w
  obtain r w1 where m: "m w = (r, w1)"
    by (cases "m w")
  from assms(1) m have 1: "dirs w \<subseteq> dirs w1" "dom (files w) \<subseteq> dom (files w1)"
    unfolding keeps_files_def by (metis snd_conv)+
  show "dirs w \<subseteq> dirs (snd (io_bind m f w)) \<and> dom (files w) \<subseteq> dom (files (snd (io_bind m f w)))"
  proof (cases r)
    case (Inl e)
    with m 1 show ?thesis by (simp add: io_bind_def)
  next
    case (Inr x)
    from assms(2) [of x] have 2: "dirs w1 \<subseteq> dirs (snd (f x w1))"
      "dom (files w1) \<subseteq> dom (files (snd (f x w1)))"
      unfolding keeps_files_def by blast+
    from Inr m have s: "snd (io_bind m f w) = snd (f x w1)"
      by (simp add: io_bind_def)
    show ?thesis
      unfolding s using order_trans [OF 1(1) 2(1)] order_trans [OF 1(2) 2(2)] by simp
  qed
qed

lemma keeps_except:
  assumes "keeps_files m" and "\<And>e. keeps_files (h e)"
  shows "keeps_files (except_Exception m h)"
  unfolding keeps_files_def
proof
  fix w
  obtain r w1 where m: "m w = (r, w1)"
    by (cases "m w")
  from assms(1) m have 1: "dirs w \<subseteq> dirs w1" "dom (files w) \<subseteq> dom (files w1)"
    unfolding keeps_files_def by (metis snd_conv)+
  show "dirs w \<subseteq> dirs (snd (except_Exception m h w)) \<and>
        dom (files w) \<subseteq> dom (files (snd (except_Exception m h w)))"
  proof (cases r)
    case (Inr x)
    with m 1 show ?thesis by (simp add: except_Exception_def)
  next
    case (Inl e)
    from assms(2) [of e] have 2: "dirs w1 \<subseteq> dirs (snd (h e w1))"
      "dom (files w1) \<subseteq> dom (files (snd (h e w1)))"
      unfolding keeps_files_def by blast+
    show ?thesis
    proof (cases "is_Exception e")
      case True
      with Inl m have s: "snd (except_Exception m h w) = snd (h e w1)"
        by (simp add: except_Exception_def)
      show ?thesis
        unfolding s using order_trans [OF 1(1) 2(1)] order_trans [OF 1(2) 2(2)] by simp
    next
      case False
      with Inl m 1 show ?thesis by (simp add: except_Exception_def)
    qed
  qed
qed

lemma keeps_share_video: "keeps_files (share_video U now self v)"
  unfolding share_video_def Let_def create_player_page_def
  by (intro keeps_except keeps_bind keeps_print keeps_copy2 keeps_write_file keeps_return
      keeps_run_command keeps_raise)
    (auto split: sum.splits
      intro!: keeps_bind keeps_print keeps_qr_make keeps_mkdir keeps_write_file keeps_return
        keeps_raise)

lemma keeps_setup_repository: "keeps_files (setup_repository self)"
  unfolding setup_repository_def
  by (intro keeps_except keeps_bind keeps_mkdir keeps_chdir keeps_print keeps_raise)

lemma keeps_share_typed: "keeps_files (share_typed U now sharer v)"
proof -
  have "keeps_files (io_bind (print_msg Processing)
      (\<lambda>_. io_bind (share_video U now sharer v) print_info))"
    unfolding print_info_def by (intro keeps_bind keeps_print keeps_share_video)
  then show ?thesis
    using keeps_print [of NotExist]
    by (auto simp: keeps_files_def share_typed_def)
qed

lemma keeps_main: "keeps_files (main U now stdin)"
  unfolding main_def GitLFSVideoShare_def input_line_def
  by (intro keeps_except keeps_bind keeps_print keeps_getcwd keeps_setup_repository
      keeps_return keeps_share_typed)
    (auto split: option.splits intro: keeps_raise keeps_return)

section \<open>The copied video is left alone\<close>

lemma lv_same:
  assumes "\<And>w. dirs (snd (m w)) = dirs w \<and> cwd (snd (m w)) = cwd w \<and> files (snd (m w)) = files w"
  shows "leaves_videos repo r m"
  using assms by (simp add: leaves_videos_def os_resolve_def)

lemma lv_return: "leaves_videos repo r (io_return x)"
  by (rule lv_same) (simp add: io_return_def)

lemma lv_raise: "leaves_videos repo r (io_raise e)"
  by (rule lv_same) (simp add: io_raise_def)

lemma lv_print: "leaves_videos repo r (print_msg x)"
  by (rule lv_same) (simp add: print_msg_def)

lemma lv_qr_make: "leaves_videos repo r (qr_make u)"
  by (rule lv_same) (simp add: qr_make_def)

lemma lv_run_command: "leaves_videos repo r (run_command c)"
  by (rule lv_same) (auto simp: run_command_def Let_def split: proc_result.splits)

lemma lv_mkdir: "leaves_videos repo r (mkdir_exist_ok s)"
  unfolding leaves_videos_def
proof (intro allI impI conjI)
  fix w p
  assume r: "os_resolve w (path_str (Path repo)) = Some r"
  have "dirs w \<subseteq> dirs (snd (mkdir_exist_ok s w))" "cwd w = cwd (snd (mkdir_exist_ok s w))"
    by (auto simp: mkdir_exist_ok_def split: option.splits)
  then show "os_resolve (snd (mkdir_exist_ok s w)) (path_str (Path repo)) = Some r"
    using r by (rule os_resolve_mono)
  show "files (snd (mkdir_exist_ok s w)) p = files w p"
    by (auto simp: mkdir_exist_ok_def split: option.splits)
qed

lemma lv_bind:
  assumes "leaves_videos repo r m" and "\<And>x. leaves_videos repo r (f x)"
  shows "leaves_videos repo r (io_bind m f)"
  unfolding leaves_videos_def
proof (intro allI impI)
  fix w
  assume r: "os_resolve w (path_str (Path repo)) = Some r"
  obtain a w1 where m: "m w = (a, w1)"
    by (cases "m w")
  from assms(1) r m have 1: "os_resolve w1 (path_str (Path repo)) = Some r"
    "\<forall>p. near_videos r p \<longrightarrow> files w1 p = files w p"
    unfolding leaves_videos_def by (metis snd_conv)+
  show "os_resolve (snd (io_bind m f w)) (path_str (Path repo)) = Some r \<and>
        (\<forall>p. near_videos r p \<longrightarrow> files (snd (io_bind m f w)) p = files w p)"
  proof (cases a)
    case (Inl e)
    with m 1 show ?thesis by (simp add: io_bind_def)
  next
    case (Inr x)
    from assms(2) [of x] 1(1) have 2: "os_resolve (snd (f x w1)) (path_str (Path repo)) = Some r"
      "\<forall>p. near_videos r p \<longrightarrow> files (snd (f x w1)) p = files w1 p"
      unfolding leaves_videos_def by blast+
    from Inr m have s: "snd (io_bind m f w) = snd (f x w1)"
      by (simp add: io_bind_def)
    show ?thesis
      unfolding s using 1 2 by simp
  qed
qed

lemma lv_except:
  assumes "leaves_videos repo r m" and "\<And>e. leaves_videos repo r (h e)"
  shows "leaves_videos repo r (except_Exception m h)"
  unfolding leaves_videos_def
proof (intro allI impI)
  fix w
  assume r: "os_resolve w (path_str (Path repo)) = Some r"
  obtain a w1 where m: "m w = (a, w1)"
    by (cases "m w")
  from assms(1) r m have 1: "os_resolve w1 (path_str (Path repo)) = Some r"
    "\<forall>p. near_videos r p \<longrightarrow> files w1 p = files w p"
    unfolding leaves_videos_def by (metis snd_conv)+
  show "os_resolve (snd (except_Exception m h w)) (path_str (Path repo)) = Some r \<and>
        (\<forall>p. near_videos r p \<longrightarrow> files (snd (except_Exception m h w)) p = files w p)"
  proof (cases a)
    case (Inr x)
    with m 1 show ?thesis by (simp add: except_Exception_def)
  next
    case (Inl e)
    from assms(2) [of e] 1(1) have 2: "os_resolve (snd (h e w1)) (path_str (Path repo)) = Some r"
      "\<forall>p. near_videos r p \<longrightarrow> files (snd (h e w1)) p = files w1 p"
      unfolding leaves_videos_def by blast+
    show ?thesis
    proof (cases "is_Exception e")
      case True
      with Inl m have s: "snd (except_Exception m h w) = snd (h e w1)"
        by (simp add: except_Exception_def)
      show ?thesis
        unfolding s using 1 2 by simp
    next
      case False
      with Inl m 1 show ?thesis by (simp add: except_Exception_def)
    qed
  qed
qed

text \<open>Writing \<open>repo/a/b\<close> for a directory \<open>a\<close> other than \<open>videos\<close>.\<close>

lemma os_resolve_grandchild:
  assumes "plain_name a" and "plain_name b"
    and "os_resolve w (path_str (Path repo)) = Some r"
    and "os_resolve w (path_str ((Path repo)\<lparr>p_parts := p_parts (Path repo) @ [a, b]\<rparr>)) = Some p"
  shows "p = r @ [a, b]"
proof -
  let ?A = "(Path repo)\<lparr>p_parts := p_parts (Path repo) @ [a]\<rparr>"
  from assms(1) have "a \<noteq> []"
    by (simp add: plain_name_def)
  then have pa: "plain_path ?A"
    by (intro plain_path_snoc plain_Path)
  have eq: "(Path repo)\<lparr>p_parts := p_parts (Path repo) @ [a, b]\<rparr> = ?A\<lparr>p_parts := p_parts ?A @ [b]\<rparr>"
    by simp
  from assms(4) show ?thesis
    unfolding eq os_resolve_child [OF pa assms(2)] os_resolve_child [OF plain_Path assms(1)] assms(3)
    by (auto split: if_splits)
qed

lemma not_near_grandchild:
  "a \<noteq> lit ''videos'' \<Longrightarrow> \<not> near_videos r (r @ [a, b])"
  by (auto simp: near_videos_def)

lemma lv_write_file:
  assumes "plain_name a" and "plain_name b" and "a \<noteq> lit ''videos''"
  shows "leaves_videos repo r
     (write_file (path_str ((Path repo)\<lparr>p_parts := p_parts (Path repo) @ [a, b]\<rparr>)) x y)"
  unfolding leaves_videos_def
proof (intro allI impI conjI)
  fix w p
  let ?s = "path_str ((Path repo)\<lparr>p_parts := p_parts (Path repo) @ [a, b]\<rparr>)"
  assume r: "os_resolve w (path_str (Path repo)) = Some r"
  have "dirs w \<subseteq> dirs (snd (write_file ?s x y w))" "cwd w = cwd (snd (write_file ?s x y w))"
    by (auto simp: write_file_def split: option.splits)
  then show "os_resolve (snd (write_file ?s x y w)) (path_str (Path repo)) = Some r"
    using r by (rule os_resolve_mono)
  assume n: "near_videos r p"
  have "q = r @ [a, b]" if "os_resolve w ?s = Some q" for q
    using os_resolve_grandchild [OF assms(1,2) r that] .
  with n not_near_grandchild [OF assms(3), of r b]
  have "q \<noteq> p" if "os_resolve w ?s = Some q" for q
    using that by auto
  then show "files (snd (write_file ?s x y w)) p = files w p"
    by (auto simp: write_file_def split: option.splits)
qed

lemma split_on_parts_no_sep: "p \<in> set (split_on c s) \<Longrightarrow> c \<notin> set p"
proof (induction s arbitrary: p)
  case Nil
  then show ?case by simp
next
  case (Cons x xs)
  show ?case
  proof (cases "x = c")
    case True
    with Cons show ?thesis by auto
  next
    case False
    obtain q qs where q: "split_on c xs = q # qs"
      using split_on_ne [of c xs] by (cases "split_on c xs") auto
    with False Cons.prems have "p = x # q \<or> p \<in> set qs"
      by auto
    with q False Cons.IH [of q] Cons.IH [of p] show ?thesis
      by auto
  qed
qed

lemma basename_no_sep: "47 \<notin> set (os_path_basename v)"
  unfolding os_path_basename_def
  by (rule split_on_parts_no_sep [of _ 47 v]) (simp add: split_on_ne)

lemma last_join:
  "xs \<noteq> [] \<Longrightarrow> last xs \<noteq> [] \<Longrightarrow> join sep xs \<noteq> [] \<and> last (join sep xs) = last (last xs)"
  by (induction sep xs rule: join.induct) auto

lemma last_path_str:
  assumes "p_parts p \<noteq> []" and "last (p_parts p) \<noteq> []"
  shows "path_str p \<noteq> []" and "last (path_str p) = last (last (p_parts p))"
  using assms last_join [of "p_parts p" "lit ''/''"]
  by (simp_all add: path_str_def)

lemma os_resolve_snoc:
  assumes "x \<noteq> []" and "47 \<notin> set b"
  shows "os_resolve w (x @ 47 # b) =
     (case os_resolve w x of None \<Rightarrow> None | Some t \<Rightarrow> walk (dirs w) t [b])"
proof -
  define st where "st = (if hd x = 47 then [] else cwd w)"
  have sp: "split_on 47 (x @ 47 # b) = split_on 47 x @ [b]"
    by (simp add: split_on_append split_on_no_sep [OF assms(2)])
  from assms(1) have hd: "hd (x @ 47 # b) = hd x"
    by simp
  from assms(1) have a: "os_resolve w x = walk (dirs w) st (split_on 47 x)"
    by (simp add: os_resolve_def st_def)
  have "os_resolve w (x @ 47 # b) = walk (dirs w) st (split_on 47 x @ [b])"
    unfolding os_resolve_def sp hd st_def by simp
  also have "\<dots> = (case walk (dirs w) st (split_on 47 x) of
      None \<Rightarrow> None | Some t \<Rightarrow> walk (dirs w) t [b])"
    by (rule walk_append)
  finally show ?thesis
    unfolding a .
qed

lemma walk_one_cases: "walk D t [b] = Some p \<Longrightarrow> p = t \<or> p = butlast t \<or> p = t @ [b]"
  by (auto split: if_splits)

lemma near_root: "near_videos r r"
  by (simp add: near_videos_def)

lemma near_under: "near_videos r (r @ lit ''videos'' # rest)"
  by (simp add: near_videos_def)

lemma near_after_walk:
  assumes "t = r \<or> (\<exists>rest. t = r @ lit ''videos'' # rest)" and "walk D t [b] = Some p"
  shows "near_videos r p"
proof -
  from walk_one_cases [OF assms(2)] consider "p = t" | "p = butlast t" | "p = t @ [b]"
    by blast
  then show ?thesis
  proof cases
    case 1
    with assms(1) show ?thesis
      using near_root [of r] near_under [of r] by blast
  next
    case 2
    from assms(1) show ?thesis
    proof
      assume "t = r"
      with 2 have "length p \<le> length r + 1" by simp
      then show ?thesis by (simp add: near_videos_def)
    next
      assume "\<exists>rest. t = r @ lit ''videos'' # rest"
      then obtain rest where t: "t = r @ lit ''videos'' # rest" ..
      show ?thesis
      proof (cases "rest = []")
        case True
        with t 2 have "p = r" by (simp add: butlast_append)
        then show ?thesis by (simp add: near_root)
      next
        case False
        with t 2 have "p = r @ lit ''videos'' # butlast rest"
          by (simp add: butlast_append)
        then show ?thesis by (simp add: near_under)
      qed
    qed
  next
    case 3
    from assms(1) show ?thesis
    proof
      assume "t = r"
      with 3 have "length p \<le> length r + 1" by simp
      then show ?thesis by (simp add: near_videos_def)
    next
      assume "\<exists>rest. t = r @ lit ''videos'' # rest"
      then obtain rest where "t = r @ lit ''videos'' # rest" ..
      with 3 have "p = r @ lit ''videos'' # (rest @ [b])" by simp
      then show ?thesis by (simp only: near_under)
    qed
  qed
qed

lemma copy2_InrD:
  assumes "copy2 s t w = (Inr d, w2)"
  shows "\<exists>dp data.
     d = (if os_path_isdir w t then os_path_join t (os_path_basename s) else t) \<and>
     os_resolve w d = Some dp \<and> w2 = w\<lparr>files := (files w)(dp \<mapsto> data)\<rparr>"
  using assms by (auto simp: copy2_def Let_def split: if_splits option.splits)

text \<open>The target path is the videos directory, or one name below it.\<close>

lemma target_path_cases:
  fixes U repo v
  defines "V \<equiv> (Path repo)\<lparr>p_parts := p_parts (Path repo) @ [lit ''videos'']\<rparr>"
    and "sn \<equiv> safe_name U (path_name (Path v))"
  shows "target_path_of U (new_sharer repo) v = V \<or>
     (sn \<noteq> [] \<and> target_path_of U (new_sharer repo) v = V\<lparr>p_parts := p_parts V @ [sn]\<rparr>)"
proof -
  have ns: "47 \<notin> set sn"
    unfolding sn_def by (rule safe_name_no_sep)
  then have "take 1 sn \<noteq> lit ''/''" "take 2 sn \<noteq> lit ''//''"
    by (cases sn; auto simp: lit_def)+
  then have P: "Path sn = \<lparr>p_root = [], p_parts = (if sn \<noteq> [] \<and> sn \<noteq> lit ''.'' then [sn] else [])\<rparr>"
    by (simp add: Path_def split_on_no_sep [OF ns])
  have v: "videos_dir (new_sharer repo) = V"
    by (simp add: V_def new_sharer_def joinpath_single [OF Path_videos])
  have "target_path_of U (new_sharer repo) v = joinpath V sn"
    by (simp add: target_path_of_def v sn_def)
  with P show ?thesis
    by (auto simp: joinpath_def)
qed

lemma resolve_target:
  assumes "os_resolve w (path_str (target_path_of U (new_sharer repo) v)) = Some t"
  shows "\<exists>r. os_resolve w (path_str (Path repo)) = Some r \<and>
     (t = r \<or> (\<exists>rest. t = r @ lit ''videos'' # rest))"
proof -
  define V where "V = (Path repo)\<lparr>p_parts := p_parts (Path repo) @ [lit ''videos'']\<rparr>"
  define sn where "sn = safe_name U (path_name (Path v))"
  have rv: "\<exists>r. os_resolve w (path_str (Path repo)) = Some r \<and> q = r @ [lit ''videos'']"
    if "os_resolve w (path_str V) = Some q" for q
    using that unfolding V_def os_resolve_child [OF plain_Path plain_literals(1)]
    by (auto split: option.splits if_splits)
  from target_path_cases [of U repo v]
  consider "target_path_of U (new_sharer repo) v = V"
    | "sn \<noteq> []" "target_path_of U (new_sharer repo) v = V\<lparr>p_parts := p_parts V @ [sn]\<rparr>"
    unfolding V_def sn_def by blast
  then show ?thesis
  proof cases
    case 1
    with assms rv [of t] show ?thesis by auto
  next
    case 2
    have ns: "47 \<notin> set sn"
      unfolding sn_def by (rule safe_name_no_sep)
    have pv: "p_parts V \<noteq> []" "last (p_parts V) \<noteq> []"
      by (simp_all add: V_def lit_def)
    have "path_str (V\<lparr>p_parts := p_parts V @ [sn]\<rparr>) = path_str V @ 47 # sn"
      using pv(1) by (simp add: path_str_def join_snoc) (simp add: lit_def)
    with assms 2 have "os_resolve w (path_str V @ 47 # sn) = Some t"
      by simp
    then have "(case os_resolve w (path_str V) of None \<Rightarrow> None
        | Some q \<Rightarrow> walk (dirs w) q [sn]) = Some t"
      by (simp only: os_resolve_snoc [OF last_path_str(1) [OF pv] ns])
    then obtain q where q: "os_resolve w (path_str V) = Some q" and wk: "walk (dirs w) q [sn] = Some t"
      by (cases "os_resolve w (path_str V)") (simp_all del: walk.simps)
    from rv [OF q] obtain r where r: "os_resolve w (path_str (Path repo)) = Some r"
      and qr: "q = r @ [lit ''videos'']"
      by blast
    from walk_one_cases [OF wk] have "t = q \<or> t = butlast q \<or> t = q @ [sn]" .
    with qr have "t = r @ lit ''videos'' # [] \<or> t = r \<or> t = r @ lit ''videos'' # [sn]"
      by (simp add: butlast_append)
    then have "t = r \<or> (\<exists>rest. t = r @ lit ''videos'' # rest)"
      by blast
    with r show ?thesis by blast
  qed
qed

lemma target_str_end:
  "path_str (target_path_of U (new_sharer repo) v) \<noteq> [] \<and>
   last (path_str (target_path_of U (new_sharer repo) v)) \<noteq> 47"
proof -
  define V where "V = (Path repo)\<lparr>p_parts := p_parts (Path repo) @ [lit ''videos'']\<rparr>"
  define sn where "sn = safe_name U (path_name (Path v))"
  have ns: "47 \<notin> set sn"
    unfolding sn_def by (rule safe_name_no_sep)
  from target_path_cases [of U repo v]
  consider "target_path_of U (new_sharer repo) v = V"
    | "sn \<noteq> []" "target_path_of U (new_sharer repo) v = V\<lparr>p_parts := p_parts V @ [sn]\<rparr>"
    unfolding V_def sn_def by blast
  then show ?thesis
  proof cases
    case 1
    have "p_parts V \<noteq> []" "last (p_parts V) \<noteq> []"
      by (simp_all add: V_def lit_def)
    from last_path_str [OF this] 1 show ?thesis
      by (simp add: V_def lit_def)
  next
    case 2
    let ?T = "V\<lparr>p_parts := p_parts V @ [sn]\<rparr>"
    from 2(1) have "p_parts ?T \<noteq> []" "last (p_parts ?T) \<noteq> []"
      by simp_all
    from last_path_str [OF this] have ne: "path_str ?T \<noteq> []"
      and l: "last (path_str ?T) = last sn"
      by simp_all
    from 2(1) have "last sn \<in> set sn"
      by simp
    with ns have "last sn \<noteq> 47"
      by auto
    with ne l 2(2) show ?thesis
      by simp
  qed
qed

lemma copy2_lands_near:
  assumes "copy2 v (path_str (target_path_of U (new_sharer repo) v)) w = (Inr d, w2)"
  shows "\<exists>r dp data. os_resolve w (path_str (Path repo)) = Some r \<and>
     os_resolve w d = Some dp \<and> near_videos r dp \<and>
     w2 = w\<lparr>files := (files w)(dp \<mapsto> data)\<rparr>"
proof -
  let ?t = "path_str (target_path_of U (new_sharer repo) v)"
  let ?b = "os_path_basename v"
  from copy2_InrD [OF assms] obtain dp data where
    d: "d = (if os_path_isdir w ?t then os_path_join ?t ?b else ?t)"
    and dp: "os_resolve w d = Some dp"
    and w2: "w2 = w\<lparr>files := (files w)(dp \<mapsto> data)\<rparr>"
    by blast
  have "\<exists>r. os_resolve w (path_str (Path repo)) = Some r \<and> near_videos r dp"
  proof (cases "os_path_isdir w ?t")
    case False
    with d dp have "os_resolve w ?t = Some dp" by simp
    from resolve_target [OF this] show ?thesis
      by (auto simp: near_root near_under)
  next
    case True
    have nb: "47 \<notin> set ?b"
      by (rule basename_no_sep)
    then have "take 1 ?b \<noteq> lit ''/''"
      by (cases ?b) (auto simp: lit_def)
    with target_str_end [of U repo v] have "os_path_join ?t ?b = ?t @ 47 # ?b"
      by (simp add: os_path_join_def) (simp add: lit_def)
    with True d dp have "os_resolve w (?t @ 47 # ?b) = Some dp"
      by simp
    moreover have ne: "?t \<noteq> []"
      using target_str_end [of U repo v] by blast
    ultimately have "(case os_resolve w ?t of None \<Rightarrow> None
        | Some t \<Rightarrow> walk (dirs w) t [?b]) = Some dp"
      by (simp only: os_resolve_snoc [OF ne nb])
    then obtain t where t: "os_resolve w ?t = Some t" and wk: "walk (dirs w) t [?b] = Some dp"
      by (cases "os_resolve w ?t") (simp_all del: walk.simps)
    from resolve_target [OF t] obtain r where r: "os_resolve w (path_str (Path repo)) = Some r"
      and tr: "t = r \<or> (\<exists>rest. t = r @ lit ''videos'' # rest)"
      by blast
    from near_after_walk [OF tr wk] r show ?thesis by blast
  qed
  with dp w2 show ?thesis by blast
qed

lemma snd_except_raise: "snd (except_Exception m (\<lambda>e. io_raise (g e)) w) = snd (m w)"
  by (auto simp: except_Exception_def io_raise_def split: prod.splits sum.splits)

lemma io_bind_print: "io_bind (print_msg c) f w = f () (snd (print_msg c w))"
  by (simp add: io_bind_def print_msg_def)

lemma after_print_bind:
  assumes "m (snd (print_msg c w)) = (Inr x, w1)"
  shows "snd (except_Exception (io_bind (print_msg c) (\<lambda>_. io_bind m f)) (\<lambda>e. io_raise (g e)) w) =
     snd (f x w1)"
  using assms by (simp add: snd_except_raise io_bind_print) (simp add: io_bind_def)

lemma keeps_after_copy:
  assumes "m (snd (print_msg c w)) = (Inr x, w1)" and "\<And>y. keeps_files (f y)"
  shows "dirs w1 \<subseteq>
       dirs (snd (except_Exception (io_bind (print_msg c) (\<lambda>_. io_bind m f)) (\<lambda>e. io_raise (g e)) w)) \<and>
     dom (files w1) \<subseteq>
       dom (files (snd (except_Exception (io_bind (print_msg c) (\<lambda>_. io_bind m f))
         (\<lambda>e. io_raise (g e)) w)))"
  unfolding after_print_bind [where m = m and c = c and w = w, OF assms(1)]
  using assms(2) [of x] by (simp add: keeps_files_def)

lemma lv_after_copy:
  assumes "m (snd (print_msg c w)) = (Inr x, w1)" and "\<And>y. leaves_videos repo r (f y)"
    and "os_resolve w1 (path_str (Path repo)) = Some r" and "near_videos r p"
  shows "files (snd (except_Exception (io_bind (print_msg c) (\<lambda>_. io_bind m f))
       (\<lambda>e. io_raise (g e)) w)) p = files w1 p"
  unfolding after_print_bind [where m = m and c = c and w = w, OF assms(1)]
  using assms(2) [of x] assms(3,4) by (simp add: leaves_videos_def)

lemma lv_case_sum:
  assumes "\<And>e. leaves_videos repo r (f e)" and "\<And>x. leaves_videos repo r (g x)"
  shows "leaves_videos repo r (case s of Inl e \<Rightarrow> f e | Inr x \<Rightarrow> g x)"
  using assms by (cases s) simp_all

lemma page_name_len: "15 < length (page_name U now t)"
  by (simp add: page_name_def length_strftime lit_def)

lemma plain_page_name: "plain_name (page_name U now t)"
  using page_name_no_sep(1) [of U now t] page_name_len [of U now t]
  by (auto simp: plain_name_def lit_def)

lemma plain_qr_name: "plain_name (title_of U v @ lit ''_qr.png'')"
  using title_of_no_sep [of U v]
  by (auto simp: plain_name_def lit_def)

lemma share_video_keeps_copy:
  assumes "copy2 v (path_str (target_path_of U self v)) (snd (print_msg Copying w)) = (Inr d, w2)"
  shows "dirs w2 \<subseteq> dirs (snd (share_video U now self v w)) \<and>
     dom (files w2) \<subseteq> dom (files (snd (share_video U now self v w)))"
  unfolding share_video_def Let_def create_player_page_def
  by (rule keeps_after_copy [where m = "copy2 v (path_str (target_path_of U self v))", OF assms])
    (auto split: sum.splits
      intro!: keeps_bind keeps_print keeps_qr_make keeps_mkdir keeps_write_file keeps_return
        keeps_raise keeps_run_command)

lemma share_video_leaves_copy:
  assumes "copy2 v (path_str (target_path_of U (new_sharer repo) v)) (snd (print_msg Copying w)) =
      (Inr d, w2)"
    and "os_resolve w2 (path_str (Path repo)) = Some r" and "near_videos r p"
  shows "files (snd (share_video U now (new_sharer repo) v w)) p = files w2 p"
proof -
  have ne: "lit ''pages'' \<noteq> lit ''videos''" "lit ''qrcodes'' \<noteq> lit ''videos''"
    by (simp_all add: lit_def)
  show ?thesis
    unfolding share_video_def Let_def create_player_page_def page_path_parts qr_path_parts
    by (rule lv_after_copy [where m = "copy2 v (path_str (target_path_of U (new_sharer repo) v))",
          OF assms(1) _ assms(2,3)])
      (intro lv_bind lv_case_sum lv_print lv_run_command lv_qr_make lv_mkdir lv_return lv_raise
        lv_write_file plain_literals plain_page_name plain_qr_name ne)
qed

lemma os_resolve_files_update: "os_resolve (w\<lparr>files := f\<rparr>) s = os_resolve w s"
  by (simp add: os_resolve_def)

lemma share_video_copy_stays:
  assumes "copy2 v (path_str (target_path_of U (new_sharer repo) v)) (snd (print_msg Copying w)) =
      (Inr d, w2)"
  shows "\<exists>p data. os_resolve w2 d = Some p \<and> files w2 p = Some data \<and>
     files (snd (share_video U now (new_sharer repo) v w)) p = Some data"
proof -
  from copy2_lands_near [OF assms] obtain r dp data where
    r: "os_resolve (snd (print_msg Copying w)) (path_str (Path repo)) = Some r"
    and dp: "os_resolve (snd (print_msg Copying w)) d = Some dp"
    and n: "near_videos r dp"
    and w2: "w2 = (snd (print_msg Copying w))\<lparr>files := (files (snd (print_msg Copying w)))(dp \<mapsto> data)\<rparr>"
    by blast
  from r dp w2 have r2: "os_resolve w2 (path_str (Path repo)) = Some r"
    and dp2: "os_resolve w2 d = Some dp"
    by (simp_all add: os_resolve_files_update)
  from w2 have f: "files w2 dp = Some data"
    by simp
  from share_video_leaves_copy [OF assms r2 n, of now] f
  have "files (snd (share_video U now (new_sharer repo) v w)) dp = Some data"
    by simp
  with dp2 f show ?thesis by blast
qed

lemma only_copy_works_run:
  "copy2 (lit ''/home/My Clip.mov'')
     (path_str (target_path_of no_unicode (new_sharer (lit ''/repo'')) (lit ''/home/My Clip.mov'')))
     (snd (print_msg Copying only_copy_works)) =
     (Inr (lit ''/repo/videos/My Clip.mov''),
      only_copy_works
        \<lparr>files := (files only_copy_works)
           ([lit ''repo'', lit ''videos'', lit ''My Clip.mov''] \<mapsto> Bytes [1, 2, 3]),
         console := [Copying]\<rparr>)"
  "fst (share_video no_unicode now0 (new_sharer (lit ''/repo'')) (lit ''/home/My Clip.mov'')
     only_copy_works) = Inl (ShareFailed OSError)"
  "os_resolve
     (only_copy_works
        \<lparr>files := (files only_copy_works)
           ([lit ''repo'', lit ''videos'', lit ''My Clip.mov''] \<mapsto> Bytes [1, 2, 3]),
         console := [Copying]\<rparr>)
     (lit ''/repo/videos/My Clip.mov'') = Some [lit ''repo'', lit ''videos'', lit ''My Clip.mov'']"
  by (simp_all add: io_defs os_defs prog_defs str_defs path_defs share_defs only_copy_works_def
      world1_def now0_def Let_def)

section \<open>What ends the process\<close>







section \<open>The claims\<close>

text \<open>
  C3. For every input string the file-name sanitizer returns a string of alphanumeric
  characters, spaces, hyphens, underscores and dots only, with no whitespace left at
  either end; the title sanitizer returns such a string without dots. Both are
  functions of their input alone (and of the Unicode table that decides what is
  alphanumeric).
\<close>

theorem sanitizers_charset:
  "set (safe_name U s) \<subseteq> {c. isalnum U c \<or> c \<in> set (lit '' -_.'')} \<and>
   trimmed (safe_name U s) \<and>
   set (safe_title U s) \<subseteq> {c. isalnum U c \<or> c \<in> set (lit '' -_'')} \<and>
   46 \<notin> set (safe_title U s) \<and>
   trimmed (safe_title U s)"
proof -
  have "trimmed (safe_name U s)"
    unfolding safe_name_def by (rule trimmed_strip)
  moreover have "trimmed (safe_title U s)"
    unfolding safe_title_def by (rule trimmed_strip)
  ultimately show ?thesis
    using set_safe_name [of U s] set_safe_title [of U s] no_dot_safe_title [of U s]
    by blast
qed

text \<open>
  C10. Both sanitizers are idempotent: sanitizing a sanitized name, or a sanitized
  title, returns it unchanged.
\<close>

theorem sanitizers_idempotent:
  "safe_name U (safe_name U s) = safe_name U s \<and>
   safe_title U (safe_title U s) = safe_title U s"
proof -
  have "strip (filter Q (strip (filter Q t))) = strip (filter Q t)" for Q t
    unfolding strip_def by (simp only: filter_strip_with strip_with_idem)
  then show ?thesis
    by (simp only: safe_name_def safe_title_def)
qed

text \<open>
  C4. For every share operation that returns, the page URL is the fixed base origin,
  a slash, and the page's path relative to the repository root with every backslash
  replaced by a slash: the base origin followed by \<open>/pages/\<close> and the page's file
  name. A relative path written with a backslash gives the same URL, and no URL holds
  a backslash.
\<close>

theorem page_url_is_base_pages_name:
  "relative_to (joinpath (pages_dir (new_sharer repo)) (page_name U now (title_of U v)))
      (repo_path (new_sharer repo)) =
     Inr \<lparr>p_root = [], p_parts = [lit ''pages'', page_name U now (title_of U v)]\<rparr> \<and>
   (fst (share_video U now (new_sharer repo) v w) = Inr info \<longrightarrow>
      info_page_path info =
        path_str (joinpath (pages_dir (new_sharer repo)) (page_name U now (title_of U v))) \<and>
      info_page_url info =
        repo_url @ lit ''/'' @ replace_char 92 47 (lit ''pages/'' @ page_name U now (title_of U v)) \<and>
      info_page_url info = repo_url @ lit ''/pages/'' @ page_name U now (title_of U v)) \<and>
   page_url_of (lit ''pages'' @ [92] @ page_name U now (title_of U v)) =
     repo_url @ lit ''/pages/'' @ page_name U now (title_of U v) \<and>
   92 \<notin> set (page_url_of s)"
proof -
  let ?pn = "page_name U now (title_of U v)"
  let ?rel = "\<lparr>p_root = [], p_parts = [lit ''pages'', ?pn]\<rparr>"
  have str: "path_str ?rel = lit ''pages/'' @ ?pn"
    by (simp add: path_str_def lit_def)
  have run: "info_page_path info =
        path_str (joinpath (pages_dir (new_sharer repo)) ?pn) \<and>
      info_page_url info = repo_url @ lit ''/'' @ replace_char 92 47 (lit ''pages/'' @ ?pn) \<and>
      info_page_url info = repo_url @ lit ''/pages/'' @ ?pn"
    if "fst (share_video U now (new_sharer repo) v w) = Inr info"
  proof -
    from that obtain w' where "share_video U now (new_sharer repo) v w = (Inr info, w')"
      by (metis prod.collapse)
    from share_video_InrD [OF this] obtain rel where
      rel: "relative_to (joinpath (pages_dir (new_sharer repo)) ?pn) (repo_path (new_sharer repo)) = Inr rel"
      and p: "info_page_path info = path_str (joinpath (pages_dir (new_sharer repo)) ?pn)"
      and u: "info_page_url info = page_url_of (path_str rel)"
      by auto
    from rel have "rel = ?rel"
      by (simp add: page_relative)
    with u have u': "info_page_url info = page_url_of (path_str ?rel)"
      by simp
    then have "info_page_url info = repo_url @ lit ''/pages/'' @ ?pn"
      by (simp only: page_url_pages)
    moreover from u' have
      "info_page_url info = repo_url @ lit ''/'' @ replace_char 92 47 (lit ''pages/'' @ ?pn)"
      by (simp only: str page_url_of_def)
    ultimately show ?thesis
      using p by blast
  qed
  show ?thesis
    using page_relative [of repo U now "title_of U v"] run
      page_url_backslash [of U now "title_of U v"] page_url_no_backslash [of s]
    by blast
qed

theorem page_url_is_base_pages_name_witness:
  "fst (share_video no_unicode now0 (new_sharer (lit ''/repo'')) (lit ''/home/My Clip.mov'') world1) =
     Inr info0 \<and>
   info_page_url info0 =
     repo_url @ lit ''/pages/'' @ page_name no_unicode now0 (title_of no_unicode (lit ''/home/My Clip.mov'')) \<and>
   info_page_url info0 =
     lit ''https://estellalin21.github.io/camforu/pages/20240101_120000_My Clip.html''"
proof -
  note th = page_url_is_base_pages_name [of "lit ''/repo''" no_unicode now0
      "lit ''/home/My Clip.mov''" world1 info0]
  from run1 th have "info_page_url info0 =
     repo_url @ lit ''/pages/'' @ page_name no_unicode now0 (title_of no_unicode (lit ''/home/My Clip.mov''))"
    by blast
  moreover have "info_page_url info0 =
     lit ''https://estellalin21.github.io/camforu/pages/20240101_120000_My Clip.html''"
    by (simp add: info0_def)
  ultimately show ?thesis
    using run1 by blast
qed

text \<open>
  C1 (what the code does). The page's \<open>source\<close> element does not name the copied
  file. For the input \<open>/home/My Clip.mov\<close> the copy is \<open>videos/My Clip.mov\<close>, while
  the page written holds \<open>src="../videos/My Clip"\<close>: \<open>share_video\<close> hands the stem
  of the sanitized name to \<open>create_player_page\<close>, which builds the path from the
  sanitized title, so the extension is lost.
\<close>

theorem page_source_drops_extension:
  \<open>fst (share_video no_unicode now0 (new_sharer (lit ''/repo'')) (lit ''/home/My Clip.mov'') world1) =
     Inr info0 \<and>
   info_video_path info0 = lit ''/repo/videos/My Clip.mov'' \<and>
   safe_name no_unicode (path_name (Path (lit ''/home/My Clip.mov''))) = lit ''My Clip.mov'' \<and>
   files (snd (share_video no_unicode now0 (new_sharer (lit ''/repo'')) (lit ''/home/My Clip.mov'') world1))
     [lit ''repo'', lit ''pages'', lit ''20240101_120000_My Clip.html''] =
     Some (Html (html_content (lit ''My Clip'') (lit ''../videos/My Clip''))) \<and>
   (\<exists>pre post. html_content (lit ''My Clip'') (lit ''../videos/My Clip'') =
      pre @ lit ''<source src="'' @ lit ''../videos/My Clip'' @ lit ''" type="video/mp4">'' @ post) \<and>
   lit ''../videos/My Clip'' \<noteq> lit ''../videos/'' @ lit ''My Clip.mov''\<close>
proof -
  have "safe_name no_unicode (path_name (Path (lit ''/home/My Clip.mov''))) = lit ''My Clip.mov''"
    by (simp add: str_defs path_defs share_defs)
  moreover have "info_video_path info0 = lit ''/repo/videos/My Clip.mov''"
    by (simp add: info0_def)
  moreover have "lit ''../videos/My Clip'' \<noteq> lit ''../videos/'' @ lit ''My Clip.mov''"
    by (simp add: lit_def)
  ultimately show ?thesis
    using run1 run1_files(2) html_has_source [of "lit ''My Clip''" "lit ''../videos/My Clip''"]
    by blast
qed

text \<open>
  C5 (what the code does). A file name of two dots passes the sanitizer unchanged,
  and joined to the videos directory it names the repository root, a place outside
  the videos directory.
\<close>

theorem dotdot_survives_sanitizer:
  "safe_name U (path_name (Path (lit ''..''))) = lit ''..'' \<and>
   path_str (target_path_of U (new_sharer (lit ''/repo'')) (lit ''..'')) = lit ''/repo/videos/..'' \<and>
   os_resolve world1 (lit ''/repo/videos/..'') = Some [lit ''repo''] \<and>
   os_resolve world1 (lit ''/repo/videos'') = Some [lit ''repo'', lit ''videos'']"
proof -
  have "safe_name U (path_name (Path (lit ''..''))) = lit ''..''"
    by (simp add: str_defs path_defs share_defs)
  moreover have "path_str (target_path_of U (new_sharer (lit ''/repo'')) (lit ''..'')) = lit ''/repo/videos/..''"
    by (simp add: str_defs path_defs share_defs)
  moreover have "os_resolve world1 (lit ''/repo/videos'') = Some [lit ''repo'', lit ''videos'']"
    by (simp add: os_defs str_defs world1_def)
  ultimately show ?thesis
    using world1_resolve_up by blast
qed

text \<open>
  C6 as stated fails: for \<open>a.b.mp4\<close> the QR image is \<open>qrcodes/a.b_qr.png\<close>, while the
  sanitized title is \<open>ab\<close>.
\<close>

theorem qr_name_is_not_sanitized_title:
  "path_str (qr_path_of no_unicode (new_sharer (lit ''/repo'')) (lit ''a.b.mp4'')) =
     lit ''/repo/qrcodes/a.b_qr.png'' \<and>
   safe_title no_unicode (title_of no_unicode (lit ''a.b.mp4'')) = lit ''ab'' \<and>
   path_str (qr_path_of no_unicode (new_sharer (lit ''/repo'')) (lit ''a.b.mp4'')) \<noteq>
     lit ''/repo/qrcodes/'' @ safe_title no_unicode (title_of no_unicode (lit ''a.b.mp4'')) @ lit ''_qr.png''"
  by (simp add: str_defs path_defs share_defs)

text \<open>
  C6, amended. The QR image is written at \<open>qrcodes/<stem>_qr.png\<close> relative to the
  repository root, where the stem is the sanitized file name without its last
  extension; it is the sanitized title whenever it holds no dot and no whitespace at
  its ends. After a share operation that returns, the \<open>qrcodes\<close> directory exists and
  the file at that path holds the QR image of the page URL.
\<close>

theorem qr_image_path:
  "relative_to (qr_path_of U (new_sharer repo) v) (repo_path (new_sharer repo)) =
     Inr \<lparr>p_root = [], p_parts = [lit ''qrcodes'', title_of U v @ lit ''_qr.png'']\<rparr> \<and>
   title_of U v = path_stem (Path (safe_name U (path_name (Path v)))) \<and>
   (46 \<notin> set (title_of U v) \<and> trimmed (title_of U v) \<longrightarrow>
      safe_title U (title_of U v) = title_of U v) \<and>
   (fst (share_video U now (new_sharer repo) v w) = Inr info \<longrightarrow>
      info_qr_path info = path_str (qr_path_of U (new_sharer repo) v) \<and>
      os_path_isdir (snd (share_video U now (new_sharer repo) v w))
        (path_str (joinpath (Path repo) (lit ''qrcodes''))) \<and>
      (\<exists>p. os_resolve (snd (share_video U now (new_sharer repo) v w)) (info_qr_path info) = Some p \<and>
           files (snd (share_video U now (new_sharer repo) v w)) p =
             Some (QrImage (info_page_url info))))"
proof -
  let ?self = "new_sharer repo"
  let ?q = "qr_path_of U ?self v"
  have same: "safe_title U (title_of U v) = title_of U v"
    if "46 \<notin> set (title_of U v) \<and> trimmed (title_of U v)"
    using that title_of_chars [of U v] by (simp add: safe_title_id)
  have run: "info_qr_path info = path_str ?q \<and>
      os_path_isdir (snd (share_video U now ?self v w)) (path_str (joinpath (Path repo) (lit ''qrcodes''))) \<and>
      (\<exists>p. os_resolve (snd (share_video U now ?self v w)) (info_qr_path info) = Some p \<and>
           files (snd (share_video U now ?self v w)) p = Some (QrImage (info_page_url info)))"
    if "fst (share_video U now ?self v w) = Inr info"
  proof -
    from that obtain w' where run: "share_video U now ?self v w = (Inr info, w')"
      by (metis prod.collapse)
    from share_video_InrD [OF run] obtain rel wa wb where
      q: "info_qr_path info = path_str ?q"
      and u: "info_page_url info = page_url_of (path_str rel)"
      and mk: "mkdir_exist_ok (path_str (path_parent ?q)) wa = (Inr (), wb)"
      and wr: "write_file (path_str ?q) (Bytes []) (QrImage (page_url_of (path_str rel))) wb = (Inr (), w')"
      by auto
    from mkdir_InrD [OF mk] obtain d where
      d: "os_resolve wa (path_str (path_parent ?q)) = Some d" "d \<in> dirs wb"
        "dirs wb = insert d (dirs wa)" "cwd wb = cwd wa"
      by blast
    from write_file_InrD [OF wr] obtain p where
      p: "os_resolve wb (path_str ?q) = Some p"
        "files w' = (files wb)(p \<mapsto> QrImage (page_url_of (path_str rel)))"
        "dirs w' = dirs wb" "cwd w' = cwd wb"
      by blast
    from d p have "os_resolve w' (path_str (path_parent ?q)) = Some d"
      by (intro os_resolve_mono [of wa w']) auto
    with d p have "os_path_isdir w' (path_str (joinpath (Path repo) (lit ''qrcodes'')))"
      by (simp add: os_path_isdir_def qr_parent)
    moreover from p have "os_resolve w' (path_str ?q) = Some p"
      by (intro os_resolve_mono [of wb w']) auto
    ultimately show ?thesis
      using q u p(2) run by auto
  qed
  have "title_of U v = path_stem (Path (safe_name U (path_name (Path v))))"
    by (simp add: title_of_def)
  then show ?thesis
    using qr_relative [of U repo v] same run by blast
qed

theorem qr_image_path_witness:
  "fst (share_video no_unicode now0 (new_sharer (lit ''/repo'')) (lit ''/home/My Clip.mov'') world1) =
     Inr info0 \<and>
   info_qr_path info0 = lit ''/repo/qrcodes/My Clip_qr.png'' \<and>
   title_of no_unicode (lit ''/home/My Clip.mov'') = lit ''My Clip'' \<and>
   46 \<notin> set (title_of no_unicode (lit ''/home/My Clip.mov'')) \<and>
   trimmed (title_of no_unicode (lit ''/home/My Clip.mov'')) \<and>
   safe_title no_unicode (title_of no_unicode (lit ''/home/My Clip.mov'')) =
     title_of no_unicode (lit ''/home/My Clip.mov'') \<and>
   \<not> os_path_isdir world1 (lit ''/repo/qrcodes'') \<and>
   os_path_isdir
     (snd (share_video no_unicode now0 (new_sharer (lit ''/repo'')) (lit ''/home/My Clip.mov'') world1))
     (path_str (joinpath (Path (lit ''/repo'')) (lit ''qrcodes'')))"
proof -
  note th = qr_image_path [of no_unicode "lit ''/repo''" "lit ''/home/My Clip.mov''" now0 world1 info0]
  have t: "title_of no_unicode (lit ''/home/My Clip.mov'') = lit ''My Clip''"
    by (simp add: str_defs path_defs share_defs)
  have h: "46 \<notin> set (title_of no_unicode (lit ''/home/My Clip.mov''))"
    "trimmed (title_of no_unicode (lit ''/home/My Clip.mov''))"
    unfolding t by (simp_all add: lit_def trimmed_def isspace_def)
  have n: "\<not> os_path_isdir world1 (lit ''/repo/qrcodes'')"
    by (simp add: os_defs str_defs world1_def)
  have i: "info_qr_path info0 = lit ''/repo/qrcodes/My Clip_qr.png''"
    by (simp add: info0_def)
  from th h have "safe_title no_unicode (title_of no_unicode (lit ''/home/My Clip.mov'')) =
     title_of no_unicode (lit ''/home/My Clip.mov'')"
    by blast
  moreover from th run1 have "os_path_isdir
     (snd (share_video no_unicode now0 (new_sharer (lit ''/repo'')) (lit ''/home/My Clip.mov'') world1))
     (path_str (joinpath (Path (lit ''/repo'')) (lit ''qrcodes'')))"
    by blast
  ultimately show ?thesis
    using run1 t h n i by blast
qed

text \<open>
  C2. A version-control invocation that exits with a status other than 0 is a soft
  failure: \<open>_run_command\<close> prints the error and returns the empty string. The share
  operation goes on: what it returns, the files and directories it leaves and the
  commands it starts are the same whatever the invocations do, and a share operation
  that returns has started all three commands.
\<close>

theorem command_failure_is_soft:
  "(run_proc w (length (spawned w)) cmd = Exited rc out err \<and> rc \<noteq> 0 \<longrightarrow>
      run_command cmd w =
        (Inr [], w\<lparr>spawned := spawned w @ [cmd],
                   console := console w @ [CommandError (CommandFailed err)]\<rparr>)) \<and>
   fst (share_video U now self v (w\<lparr>run_proc := p\<rparr>)) = fst (share_video U now self v w) \<and>
   dirs (snd (share_video U now self v (w\<lparr>run_proc := p\<rparr>))) =
     dirs (snd (share_video U now self v w)) \<and>
   files (snd (share_video U now self v (w\<lparr>run_proc := p\<rparr>))) =
     files (snd (share_video U now self v w)) \<and>
   spawned (snd (share_video U now self v (w\<lparr>run_proc := p\<rparr>))) =
     spawned (snd (share_video U now self v w)) \<and>
   (fst (share_video U now self v w) = Inr info \<longrightarrow>
      spawned (snd (share_video U now self v w)) = spawned w @
        [[lit ''git'', lit ''add'', info_video_path info],
         [lit ''git'', lit ''add'', info_page_path info],
         [lit ''git'', lit ''commit'', lit ''-m'',
          lit ''Add video: '' @ safe_name U (path_name (Path v))]])"
proof -
  let ?a = "share_video U now self v (w\<lparr>run_proc := p\<rparr>)"
  let ?b = "share_video U now self v w"
  from proc_blind_share_video [of U now self v] same_fs_run_proc [where w = w and p = p]
  have "fst ?a = fst ?b" and "same_fs (snd ?a) (snd ?b)"
    by (simp_all add: proc_blind_def)
  then have "fst ?a = fst ?b \<and> dirs (snd ?a) = dirs (snd ?b) \<and> files (snd ?a) = files (snd ?b) \<and>
      spawned (snd ?a) = spawned (snd ?b)"
    by (simp add: same_fs_def)
  then show ?thesis
    using run_command_failure [of w cmd rc out err] share_video_spawned [of U now self v w info]
    by blast
qed

theorem command_failure_is_soft_witness:
  "run_proc world1 (length (spawned world1)) [lit ''git'', lit ''add'', lit ''x''] =
     Exited 1 [] (lit ''fatal'') \<and>
   (1::int) \<noteq> 0 \<and>
   run_command [lit ''git'', lit ''add'', lit ''x''] world1 =
     (Inr [], world1\<lparr>spawned := spawned world1 @ [[lit ''git'', lit ''add'', lit ''x'']],
                     console := console world1 @ [CommandError (CommandFailed (lit ''fatal''))]\<rparr>) \<and>
   fst (share_video no_unicode now0 (new_sharer (lit ''/repo'')) (lit ''/home/My Clip.mov'') world1) =
     Inr info0 \<and>
   spawned (snd (share_video no_unicode now0 (new_sharer (lit ''/repo'')) (lit ''/home/My Clip.mov'') world1)) =
     spawned world1 @
     [[lit ''git'', lit ''add'', info_video_path info0],
      [lit ''git'', lit ''add'', info_page_path info0],
      [lit ''git'', lit ''commit'', lit ''-m'',
       lit ''Add video: '' @ safe_name no_unicode (path_name (Path (lit ''/home/My Clip.mov'')))]] \<and>
   console (snd (share_video no_unicode now0 (new_sharer (lit ''/repo'')) (lit ''/home/My Clip.mov'') world1)) =
     [Copying, CreatingPage, Committing,
      CommandError (CommandFailed (lit ''fatal'')),
      CommandError (CommandFailed (lit ''fatal'')),
      CommandError (CommandFailed (lit ''fatal'')),
      MakingQr]"
proof -
  note th = command_failure_is_soft [where w = world1 and cmd = "[lit ''git'', lit ''add'', lit ''x'']"
      and rc = 1 and out = "[]" and err = "lit ''fatal''" and U = no_unicode and now = now0
      and self = "new_sharer (lit ''/repo'')" and v = "lit ''/home/My Clip.mov''"
      and p = "run_proc world1" and info = info0]
  have p: "run_proc world1 (length (spawned world1)) [lit ''git'', lit ''add'', lit ''x''] =
     Exited 1 [] (lit ''fatal'')"
    by (simp add: world1_def)
  have n: "(1::int) \<noteq> 0"
    by simp
  from th p n have "run_command [lit ''git'', lit ''add'', lit ''x''] world1 =
     (Inr [], world1\<lparr>spawned := spawned world1 @ [[lit ''git'', lit ''add'', lit ''x'']],
                     console := console world1 @ [CommandError (CommandFailed (lit ''fatal''))]\<rparr>)"
    by blast
  moreover from th run1 have
    "spawned (snd (share_video no_unicode now0 (new_sharer (lit ''/repo'')) (lit ''/home/My Clip.mov'') world1)) =
     spawned world1 @
     [[lit ''git'', lit ''add'', info_video_path info0],
      [lit ''git'', lit ''add'', info_page_path info0],
      [lit ''git'', lit ''commit'', lit ''-m'',
       lit ''Add video: '' @ safe_name no_unicode (path_name (Path (lit ''/home/My Clip.mov'')))]]"
    by blast
  ultimately show ?thesis
    using p n run1 run1_world(2) by blast
qed

text \<open>
  C9. When the path typed does not exist (line 167, after the repository has been set
  up), \<open>main\<close> prints the prompt and the error message and returns. The world it leaves
  differs from the one it started in only by the two base directories \<open>videos\<close> and
  \<open>pages\<close> under the repository root, the working directory set to that root, and
  what was printed: no file is created or changed and no command is started.
\<close>

theorem missing_input_changes_nothing:
  assumes "cwd w \<in> dirs w"
    and "setup_repository (new_sharer (cwd_str w))
           (w\<lparr>console := console w @ [Banner, UsingCwd (cwd_str w)]\<rparr>) = (Inr (), ws)"
    and "\<not> os_path_exists ws (typed_path l)"
  shows "(\<exists>r. os_resolve w (path_str (Path (cwd_str w))) = Some r \<and> r \<in> dirs w \<and>
       main U now (Some l) w =
         (Inr (),
          w\<lparr>dirs := insert (r @ [lit ''pages'']) (insert (r @ [lit ''videos'']) (dirs w)),
            cwd := r,
            console := console w @ [Banner, UsingCwd (cwd_str w), Prompt, NotExist]\<rparr>)) \<and>
     files (snd (main U now (Some l) w)) = files w \<and>
     spawned (snd (main U now (Some l) w)) = spawned w"
proof -
  let ?w0 = "w\<lparr>console := console w @ [Banner, UsingCwd (cwd_str w)]\<rparr>"
  from setup_repository_InrD [OF assms(2)] obtain r where
    r: "os_resolve ?w0 (path_str (Path (cwd_str w))) = Some r" "r \<in> dirs ?w0"
    and ws: "ws = ?w0\<lparr>dirs := insert (r @ [lit ''pages'']) (insert (r @ [lit ''videos'']) (dirs ?w0)),
            cwd := r\<rparr>"
    by blast
  from main_missing_input [OF assms, of U now] ws
  have m: "main U now (Some l) w =
         (Inr (),
          w\<lparr>dirs := insert (r @ [lit ''pages'']) (insert (r @ [lit ''videos'']) (dirs w)),
            cwd := r,
            console := console w @ [Banner, UsingCwd (cwd_str w), Prompt, NotExist]\<rparr>)"
    by simp
  from r have "os_resolve w (path_str (Path (cwd_str w))) = Some r" "r \<in> dirs w"
    by (simp_all add: os_resolve_console)
  with m show ?thesis
    by auto
qed

theorem missing_input_changes_nothing_witness:
  \<open>cwd world0 \<in> dirs world0 \<and>
   setup_repository (new_sharer (cwd_str world0))
     (world0\<lparr>console := console world0 @ [Banner, UsingCwd (cwd_str world0)]\<rparr>) =
     (Inr (),
      world0\<lparr>dirs := insert [lit ''repo'', lit ''pages'']
                 (insert [lit ''repo'', lit ''videos''] (dirs world0)),
             console := [Banner, UsingCwd (lit ''/repo'')]\<rparr>) \<and>
   typed_path (lit '' "/home/missing.mov" '') = lit ''/home/missing.mov'' \<and>
   \<not> os_path_exists
       (world0\<lparr>dirs := insert [lit ''repo'', lit ''pages'']
                  (insert [lit ''repo'', lit ''videos''] (dirs world0)),
              console := [Banner, UsingCwd (lit ''/repo'')]\<rparr>)
       (typed_path (lit '' "/home/missing.mov" '')) \<and>
   files (snd (main no_unicode now0 (Some (lit '' "/home/missing.mov" '')) world0)) = files world0 \<and>
   spawned (snd (main no_unicode now0 (Some (lit '' "/home/missing.mov" '')) world0)) = [] \<and>
   console (snd (main no_unicode now0 (Some (lit '' "/home/missing.mov" '')) world0)) =
     [Banner, UsingCwd (lit ''/repo''), Prompt, NotExist]\<close>
proof -
  let ?ws = "world0\<lparr>dirs := insert [lit ''repo'', lit ''pages'']
                 (insert [lit ''repo'', lit ''videos''] (dirs world0)),
             console := [Banner, UsingCwd (lit ''/repo'')]\<rparr>"
  let ?l = \<open>lit '' "/home/missing.mov" ''\<close>
  have c: "cwd world0 \<in> dirs world0"
    by (simp add: world0_def)
  have s: "setup_repository (new_sharer (cwd_str world0))
     (world0\<lparr>console := console world0 @ [Banner, UsingCwd (cwd_str world0)]\<rparr>) = (Inr (), ?ws)"
    by (simp add: main_defs io_defs os_defs str_defs path_defs world0_def)
  have t: "typed_path ?l = lit ''/home/missing.mov''"
    by (simp add: typed_path_def strip_chars_def str_defs)
  have n: "\<not> os_path_exists ?ws (typed_path ?l)"
    unfolding t by (simp add: os_defs str_defs world0_def)
  note th = missing_input_changes_nothing [OF c s n, of no_unicode now0]
  from th have f: "files (snd (main no_unicode now0 (Some ?l) world0)) = files world0"
    and sp: "spawned (snd (main no_unicode now0 (Some ?l) world0)) = spawned world0"
    by blast+
  from th obtain r where "main no_unicode now0 (Some ?l) world0 =
         (Inr (),
          world0\<lparr>dirs := insert (r @ [lit ''pages'']) (insert (r @ [lit ''videos'']) (dirs world0)),
            cwd := r,
            console := console world0 @ [Banner, UsingCwd (cwd_str world0), Prompt, NotExist]\<rparr>)"
    by blast
  then have "console (snd (main no_unicode now0 (Some ?l) world0)) =
      console world0 @ [Banner, UsingCwd (cwd_str world0), Prompt, NotExist]"
    by simp
  then have co: "console (snd (main no_unicode now0 (Some ?l) world0)) =
     [Banner, UsingCwd (lit ''/repo''), Prompt, NotExist]"
    by (simp add: world0_def cwd_str_def lit_def)
  from sp have sp': "spawned (snd (main no_unicode now0 (Some ?l) world0)) = []"
    by (simp add: world0_def)
  from c s t n f sp' co show ?thesis
    by blast
qed

text \<open>
  C7. Once the copy into the videos directory has succeeded, the copied file stays:
  at the end of the share operation the file written by the copy is still there with
  the bytes that were copied, whether the later steps succeed or fail. No step of the
  share operation or of \<open>main\<close> removes a file or a directory, so nothing that was
  done is rolled back.
\<close>

theorem copied_video_is_never_removed:
  "(copy2 v (path_str (target_path_of U (new_sharer repo) v)) (snd (print_msg Copying w)) =
      (Inr d, w2) \<longrightarrow>
      (\<exists>p data. os_resolve w2 d = Some p \<and> files w2 p = Some data \<and>
         files (snd (share_video U now (new_sharer repo) v w)) p = Some data) \<and>
      dirs w2 \<subseteq> dirs (snd (share_video U now (new_sharer repo) v w)) \<and>
      dom (files w2) \<subseteq> dom (files (snd (share_video U now (new_sharer repo) v w)))) \<and>
   dirs w \<subseteq> dirs (snd (share_video U now (new_sharer repo) v w)) \<and>
   dom (files w) \<subseteq> dom (files (snd (share_video U now (new_sharer repo) v w))) \<and>
   dirs w \<subseteq> dirs (snd (main U now stdin w)) \<and>
   dom (files w) \<subseteq> dom (files (snd (main U now stdin w)))"
proof -
  from keeps_share_video [of U now "new_sharer repo" v]
  have "dirs w \<subseteq> dirs (snd (share_video U now (new_sharer repo) v w)) \<and>
      dom (files w) \<subseteq> dom (files (snd (share_video U now (new_sharer repo) v w)))"
    by (simp add: keeps_files_def)
  moreover from keeps_main [of U now stdin]
  have "dirs w \<subseteq> dirs (snd (main U now stdin w)) \<and>
      dom (files w) \<subseteq> dom (files (snd (main U now stdin w)))"
    by (simp add: keeps_files_def)
  ultimately show ?thesis
    using share_video_copy_stays [of v U repo w d w2 now]
      share_video_keeps_copy [of v U "new_sharer repo" w d w2 now]
    by blast
qed

theorem copied_video_is_never_removed_witness:
  "copy2 (lit ''/home/My Clip.mov'')
     (path_str (target_path_of no_unicode (new_sharer (lit ''/repo'')) (lit ''/home/My Clip.mov'')))
     (snd (print_msg Copying only_copy_works)) =
     (Inr (lit ''/repo/videos/My Clip.mov''),
      only_copy_works
        \<lparr>files := (files only_copy_works)
           ([lit ''repo'', lit ''videos'', lit ''My Clip.mov''] \<mapsto> Bytes [1, 2, 3]),
         console := [Copying]\<rparr>) \<and>
   fst (share_video no_unicode now0 (new_sharer (lit ''/repo'')) (lit ''/home/My Clip.mov'')
     only_copy_works) = Inl (ShareFailed OSError) \<and>
   files (snd (share_video no_unicode now0 (new_sharer (lit ''/repo'')) (lit ''/home/My Clip.mov'')
     only_copy_works)) [lit ''repo'', lit ''videos'', lit ''My Clip.mov''] = Some (Bytes [1, 2, 3])"
proof -
  let ?W = "only_copy_works
        \<lparr>files := (files only_copy_works)
           ([lit ''repo'', lit ''videos'', lit ''My Clip.mov''] \<mapsto> Bytes [1, 2, 3]),
         console := [Copying]\<rparr>"
  let ?S = "snd (share_video no_unicode now0 (new_sharer (lit ''/repo'')) (lit ''/home/My Clip.mov'')
     only_copy_works)"
  note th = copied_video_is_never_removed [where v = "lit ''/home/My Clip.mov''" and U = no_unicode
      and repo = "lit ''/repo''" and w = only_copy_works and d = "lit ''/repo/videos/My Clip.mov''"
      and ?w2.0 = ?W and now = now0]
  from th only_copy_works_run(1) obtain p data where
    p: "os_resolve ?W (lit ''/repo/videos/My Clip.mov'') = Some p"
    and d: "files ?W p = Some data" and f: "files ?S p = Some data"
    by blast
  from p only_copy_works_run(3) have p': "p = [lit ''repo'', lit ''videos'', lit ''My Clip.mov'']"
    by simp
  with d have "data = Bytes [1, 2, 3]"
    by simp
  with f p' have "files ?S [lit ''repo'', lit ''videos'', lit ''My Clip.mov''] = Some (Bytes [1, 2, 3])"
    by simp
  with only_copy_works_run(1,2) show ?thesis
    by blast
qed




end
